theory Spec2Isabelle
  imports Complex_Main "HOL-Library.Monad_Syntax"
begin

section \<open>JavaScript strings\<close>

text \<open>
  A JavaScript string is a sequence of UTF-16 code units; \<open>jsstring\<close> is the list of
  their numeric values, so that \<^verbatim>\<open>length\<close> and \<^verbatim>\<open>substring\<close> count what the source counts
  and the non-ASCII messages of the source can be written down. \<open>js\<close> embeds an ASCII
  literal.
\<close>

type_synonym jsstring = "nat list"

definition js :: "string \<Rightarrow> jsstring" where
  "js s = map of_char s"

text \<open>
  \<^verbatim>\<open>\s\<close> in a regular expression, and the characters \<^verbatim>\<open>String.prototype.trim\<close> strips
  (ECMAScript WhiteSpace and LineTerminator).
\<close>

definition isWhiteSpace :: "nat \<Rightarrow> bool" where
  "isWhiteSpace c \<longleftrightarrow>
     c = 9 \<or> c = 10 \<or> c = 11 \<or> c = 12 \<or> c = 13 \<or> c = 32 \<or> c = 160 \<or> c = 5760 \<or>
     (8192 \<le> c \<and> c \<le> 8202) \<or> c = 8232 \<or> c = 8233 \<or> c = 8239 \<or> c = 8287 \<or>
     c = 12288 \<or> c = 65279"

definition trim :: "jsstring \<Rightarrow> jsstring" where
  "trim s = rev (dropWhile isWhiteSpace (rev (dropWhile isWhiteSpace s)))"

fun startsWith :: "jsstring \<Rightarrow> jsstring \<Rightarrow> bool" where
  "startsWith s [] = True"
| "startsWith [] (p # ps) = False"
| "startsWith (c # cs) (p # ps) = (c = p \<and> startsWith cs ps)"

text \<open>\<^verbatim>\<open>s.includes(pat)\<close>: \<open>pat\<close> occurs in \<open>s\<close>.\<close>

fun includes_str :: "jsstring \<Rightarrow> jsstring \<Rightarrow> bool" where
  "includes_str [] pat = (pat = [])"
| "includes_str (c # cs) pat = (startsWith (c # cs) pat \<or> includes_str cs pat)"

text \<open>\<^verbatim>\<open>s.split(sep)\<close> for a separator of one code unit.\<close>

fun split_str :: "nat \<Rightarrow> jsstring \<Rightarrow> jsstring list" where
  "split_str sep [] = [[]]"
| "split_str sep (c # cs) =
     (if c = sep then [] # split_str sep cs
      else (case split_str sep cs of
              [] \<Rightarrow> [[c]]
            | part # parts \<Rightarrow> (c # part) # parts))"

text \<open>The decimal digits of a natural number, as a template literal prints it.\<close>

function showNat :: "nat \<Rightarrow> jsstring" where
  "showNat n = (if n < 10 then [48 + n] else showNat (n div 10) @ [48 + n mod 10])"
  by pat_completeness auto
termination
  by (relation "measure id") auto

text \<open>
  Matching under the flag \<^verbatim>\<open>i\<close> (no flag \<^verbatim>\<open>u\<close>): an ASCII letter of the pattern matches
  its two ASCII cases and nothing else, so both sides are compared in lower case.
\<close>

definition lowerASCII :: "nat \<Rightarrow> nat" where
  "lowerASCII c = (if 65 \<le> c \<and> c \<le> 90 then c + 32 else c)"

definition includes_ci :: "jsstring \<Rightarrow> jsstring \<Rightarrow> bool" where
  "includes_ci s pat = includes_str (map lowerASCII s) (map lowerASCII pat)"

definition isDigit :: "nat \<Rightarrow> bool" where
  "isDigit c \<longleftrightarrow> 48 \<le> c \<and> c \<le> 57"

section \<open>Results and errors (shared/types/core)\<close>

datatype ErrorCategory = DOMAIN | INFRASTRUCTURE | UI | NETWORK

datatype ErrorSeverity = CRITICAL | WARNING | INFO

text \<open>A value stored under a key of an error's \<^verbatim>\<open>context\<close> object.\<close>

datatype ctxval = CtxNum nat | CtxStr jsstring | CtxUndefined

text \<open>
  The interface \<^verbatim>\<open>AppError\<close>, without \<^verbatim>\<open>timestamp\<close> (the \<^verbatim>\<open>new Date()\<close> of the moment the
  error is created) and the optional \<^verbatim>\<open>recovery\<close>, which no code of the service reads.
  Error codes and context keys are ASCII literals of the source and are kept as such.
\<close>

record AppError =
  code :: string
  category :: ErrorCategory
  severity :: ErrorSeverity
  userMessage :: jsstring
  technicalMessage :: jsstring
  errContext :: "(string \<times> ctxval) list"

text \<open>
  \<^verbatim>\<open>createError(code, category, severity, userMessage, technicalMessage, context?)\<close> builds
  the error from its arguments. \<^verbatim>\<open>Result<T> = {success: true, data: T} | {success: false,
  error: E}\<close> is a sum, \<open>Inl\<close> the failure; \<^verbatim>\<open>ok\<close> and \<^verbatim>\<open>err\<close> are its two injections.
\<close>

definition createError ::
  "string \<Rightarrow> ErrorCategory \<Rightarrow> ErrorSeverity \<Rightarrow> jsstring \<Rightarrow> jsstring \<Rightarrow>
   (string \<times> ctxval) list \<Rightarrow> AppError" where
  "createError c cat sev um tm ctx =
     \<lparr>code = c, category = cat, severity = sev, userMessage = um,
      technicalMessage = tm, errContext = ctx\<rparr>"

type_synonym 'a Result = "AppError + 'a"

definition ok :: "'a \<Rightarrow> 'a Result" where
  "ok data = Inr data"

definition err :: "AppError \<Rightarrow> 'a Result" where
  "err error = Inl error"

text \<open>
  An \<^verbatim>\<open>Error\<close> object as the service inspects it: its \<^verbatim>\<open>message\<close> and the \<^verbatim>\<open>code\<close> property
  Node puts on system errors (\<open>None\<close> when the object has none).
\<close>

datatype jserror = JSError (message: jsstring) (errorCode: "jsstring option")

text \<open>How a promise settles.\<close>

datatype 'a completion = Resolved 'a | Rejected jserror

text \<open>
  What a call of a public operation does: it returns its \<^verbatim>\<open>Result\<close>, or a \<^verbatim>\<open>TypeError\<close>
  raised by the engine escapes to the caller.
\<close>

datatype 'a outcome = Returned 'a | ThrewTypeError

subsection \<open>The messages of the source\<close>

text \<open>msgNoApiKey: the user message of AI_NO_API_KEY (please set the GLM-4 API key first).\<close>

definition msgNoApiKey :: jsstring where
  "msgNoApiKey =
     [35831, 20808, 35774, 32622] @ js ''GLM-4 API'' @ [23494, 38053]"

text \<open>msgNotInitialized: the user message of AI_NOT_INITIALIZED (AI service not initialized).\<close>

definition msgNotInitialized :: jsstring where
  "msgNotInitialized =
     js ''AI'' @ [26381, 21153, 26410, 21021, 22987, 21270]"

text \<open>msgAuthFailed: the user message of AI_AUTH_FAILED (API key invalid or insufficient permission, check the settings).\<close>

definition msgAuthFailed :: jsstring where
  "msgAuthFailed =
     js ''API'' @ [23494, 38053, 26080, 25928, 25110, 26435, 38480, 19981, 36275, 65292,
     35831, 26816, 26597, 35774, 32622]"

text \<open>msgBadRequest: the user message of AI_BAD_REQUEST (malformed request).\<close>

definition msgBadRequest :: jsstring where
  "msgBadRequest =
     [35831, 27714, 26684, 24335, 38169, 35823]"

text \<open>msgRequestFailed: the generic user message of AI_REQUEST_FAILED (AI request failed, check the network connection).\<close>

definition msgRequestFailed :: jsstring where
  "msgRequestFailed =
     js ''AI'' @ [35831, 27714, 22833, 36133, 65292, 35831, 26816, 26597, 32593, 32476,
     36830, 25509]"

text \<open>msgConnReset: the user message for ECONNRESET (connection interrupted by the server, retry later).\<close>

definition msgConnReset :: jsstring where
  "msgConnReset =
     js ''API'' @ [36830, 25509, 34987, 26381, 21153, 22120, 20013, 26029, 65292, 21487,
     33021, 26159, 26381, 21153, 22120, 32321, 24537, 25110, 35831, 27714, 36807,
     22823, 65292, 35831, 31245, 21518, 37325, 35797]"

text \<open>msgTimedOut: the user message for ETIMEDOUT (request timed out).\<close>

definition msgTimedOut :: jsstring where
  "msgTimedOut =
     js ''API'' @ [35831, 27714, 36229, 26102, 65292, 35831, 26816, 26597, 32593, 32476,
     36830, 25509, 25110, 31245, 21518, 37325, 35797]"

text \<open>msgNotFound: the user message for ENOTFOUND (cannot reach the API server).\<close>

definition msgNotFound :: jsstring where
  "msgNotFound =
     [26080, 27861, 36830, 25509, 21040] @ js ''API'' @ [26381, 21153, 22120, 65292,
     35831, 26816, 26597, 32593, 32476, 35774, 32622]"

text \<open>msgParseFailed: the user message of AI_PARSE_FAILED (the returned JSON is incomplete or wrong).\<close>

definition msgParseFailed :: jsstring where
  "msgParseFailed =
     js ''AI'' @ [21709, 24212, 35299, 26512, 22833, 36133, 65292, 36820, 22238, 30340] @
     js ''JSON'' @ [26684, 24335, 19981, 23436, 25972, 25110, 26377, 38169, 35823]"

text \<open>msgKeyUnset: the message thrown by callAPI for an empty key (API key not set).\<close>

definition msgKeyUnset :: jsstring where
  "msgKeyUnset =
     js ''API '' @ [23494, 38053, 26410, 35774, 32622]"

text \<open>msgKeyFormat: the message thrown by callAPI for a key without a dot (API key format invalid).\<close>

definition msgKeyFormat :: jsstring where
  "msgKeyFormat =
     js ''API '' @ [23494, 38053, 26684, 24335, 26080, 25928]"

text \<open>msgTokenFormat: the message thrown by generateToken (invalid API key format).\<close>

definition msgTokenFormat :: jsstring where
  "msgTokenFormat =
     [26080, 25928, 30340] @ js ''API'' @ [23494, 38053, 26684, 24335]"

section \<open>JSON values and \<^verbatim>\<open>JSON.parse\<close>\<close>

text \<open>
  The values \<^verbatim>\<open>JSON.parse\<close> builds. A number is kept as the decimal it was written as,
  \<open>JNum m e\<close> for \<open>m * 10 ^ e\<close>; an object keeps its members in source order, duplicates
  included. \<open>jsval\<close> adds \<^verbatim>\<open>undefined\<close> as \<open>None\<close>.
\<close>

datatype json =
    JNull
  | JBool bool
  | JNum int int
  | JStr jsstring
  | JArr "json list"
  | JObj "(jsstring \<times> json) list"

type_synonym jsval = "json option"

subsection \<open>Tokens\<close>

datatype token =
    TLBrace | TRBrace | TLBracket | TRBracket | TColon | TComma
  | TString jsstring
  | TScalar json

definition isJSONSpace :: "nat \<Rightarrow> bool" where
  "isJSONSpace c \<longleftrightarrow> c = 9 \<or> c = 10 \<or> c = 13 \<or> c = 32"

definition digitsVal :: "jsstring \<Rightarrow> nat" where
  "digitsVal ds = foldl (\<lambda>a c. 10 * a + (c - 48)) 0 ds"

text \<open>The fraction of a number: \<^verbatim>\<open>(\.[0-9]+)?\<close>, with the rest of the word.\<close>

definition fracPart :: "jsstring \<Rightarrow> (jsstring \<times> jsstring) option" where
  "fracPart r =
     (case r of
        [] \<Rightarrow> Some ([], [])
      | c # r' \<Rightarrow>
          if c = 46 then
            (let fp = takeWhile isDigit r'
             in if fp = [] then None else Some (fp, dropWhile isDigit r'))
          else Some ([], r))"

text \<open>The exponent of a number: \<^verbatim>\<open>([eE][+-]?[0-9]+)?\<close>, to the end of the word.\<close>

definition expPart :: "jsstring \<Rightarrow> int option" where
  "expPart r =
     (case r of
        [] \<Rightarrow> Some 0
      | c # r' \<Rightarrow>
          if c = 101 \<or> c = 69 then
            (let (eneg, ds) =
                   (case r' of
                      [] \<Rightarrow> (False, [])
                    | s # r'' \<Rightarrow>
                        if s = 45 then (True, r'')
                        else if s = 43 then (False, r'')
                        else (False, r'))
             in if ds \<noteq> [] \<and> list_all isDigit ds
                then Some (if eneg then - int (digitsVal ds) else int (digitsVal ds))
                else None)
          else None)"

text \<open>
  A JSON number, \<^verbatim>\<open>-?(0|[1-9][0-9]*)(\.[0-9]+)?([eE][+-]?[0-9]+)?\<close>, as mantissa and decimal
  exponent.
\<close>

definition parseNumber :: "jsstring \<Rightarrow> (int \<times> int) option" where
  "parseNumber w =
     (let (neg, r0) =
            (case w of
               [] \<Rightarrow> (False, [])
             | c # r \<Rightarrow> if c = 45 then (True, r) else (False, w));
          ip = takeWhile isDigit r0;
          r1 = dropWhile isDigit r0
      in if ip = [] \<or> (hd ip = 48 \<and> length ip > 1) then None
         else
           (case fracPart r1 of
              None \<Rightarrow> None
            | Some (fp, r2) \<Rightarrow>
                (case expPart r2 of
                   None \<Rightarrow> None
                 | Some e \<Rightarrow>
                     Some ((if neg then - int (digitsVal (ip @ fp)) else int (digitsVal (ip @ fp))),
                           e - int (length fp)))))"

text \<open>
  A maximal run of the characters that numbers and the literals \<^verbatim>\<open>true\<close>, \<^verbatim>\<open>false\<close>,
  \<^verbatim>\<open>null\<close> are made of is one token or a syntax error: in a JSON text such a token is
  always followed by white space, a comma, a closing bracket or the end.
\<close>

definition wordChar :: "nat \<Rightarrow> bool" where
  "wordChar c \<longleftrightarrow>
     isDigit c \<or> (97 \<le> c \<and> c \<le> 122) \<or> (65 \<le> c \<and> c \<le> 90) \<or> c = 43 \<or> c = 45 \<or> c = 46"

definition classifyWord :: "jsstring \<Rightarrow> json option" where
  "classifyWord w =
     (if w = js ''true'' then Some (JBool True)
      else if w = js ''false'' then Some (JBool False)
      else if w = js ''null'' then Some JNull
      else map_option (\<lambda>(m, e). JNum m e) (parseNumber w))"

text \<open>The character after a backslash in a string, other than \<^verbatim>\<open>u\<close>.\<close>

definition unescape :: "nat \<Rightarrow> nat option" where
  "unescape c =
     (if c = 34 then Some 34
      else if c = 92 then Some 92
      else if c = 47 then Some 47
      else if c = 98 then Some 8
      else if c = 102 then Some 12
      else if c = 110 then Some 10
      else if c = 114 then Some 13
      else if c = 116 then Some 9
      else None)"

definition hexDigit :: "nat \<Rightarrow> nat option" where
  "hexDigit c =
     (if isDigit c then Some (c - 48)
      else if 97 \<le> c \<and> c \<le> 102 then Some (c - 87)
      else if 65 \<le> c \<and> c \<le> 70 then Some (c - 55)
      else None)"

text \<open>
  The lexer reads one code unit at a time. Its modes: between tokens; inside a string
  (with the code units decoded so far, last first); after a backslash; inside
  \<^verbatim>\<open>\uXXXX\<close> (with the hex digits read so far); inside a word.
\<close>

datatype lexmode =
    LStart
  | LString jsstring
  | LEscape jsstring
  | LUnicode jsstring "nat list"
  | LWord jsstring

definition startStep :: "token list \<Rightarrow> nat \<Rightarrow> (lexmode \<times> token list) option" where
  "startStep acc c =
     (if isJSONSpace c then Some (LStart, acc)
      else if c = 34 then Some (LString [], acc)
      else if c = 123 then Some (LStart, TLBrace # acc)
      else if c = 125 then Some (LStart, TRBrace # acc)
      else if c = 91 then Some (LStart, TLBracket # acc)
      else if c = 93 then Some (LStart, TRBracket # acc)
      else if c = 58 then Some (LStart, TColon # acc)
      else if c = 44 then Some (LStart, TComma # acc)
      else if wordChar c then Some (LWord [c], acc)
      else None)"

fun lexStep :: "lexmode \<Rightarrow> token list \<Rightarrow> nat \<Rightarrow> (lexmode \<times> token list) option" where
  "lexStep LStart acc c = startStep acc c"
| "lexStep (LString s) acc c =
     (if c = 34 then Some (LStart, TString (rev s) # acc)
      else if c = 92 then Some (LEscape s, acc)
      else if c < 32 then None
      else Some (LString (c # s), acc))"
| "lexStep (LEscape s) acc c =
     (if c = 117 then Some (LUnicode s [], acc)
      else (case unescape c of
              None \<Rightarrow> None
            | Some d \<Rightarrow> Some (LString (d # s), acc)))"
| "lexStep (LUnicode s ds) acc c =
     (case hexDigit c of
        None \<Rightarrow> None
      | Some h \<Rightarrow>
          if length ds = 3
          then Some (LString (foldl (\<lambda>a d. 16 * a + d) 0 (ds @ [h]) # s), acc)
          else Some (LUnicode s (ds @ [h]), acc))"
| "lexStep (LWord w) acc c =
     (if wordChar c then Some (LWord (c # w), acc)
      else (case classifyWord (rev w) of
              None \<Rightarrow> None
            | Some v \<Rightarrow> startStep (TScalar v # acc) c))"

fun lexAll :: "lexmode \<Rightarrow> token list \<Rightarrow> jsstring \<Rightarrow> token list option" where
  "lexAll m acc [] =
     (case m of
        LStart \<Rightarrow> Some (rev acc)
      | LWord w \<Rightarrow> map_option (\<lambda>v. rev (TScalar v # acc)) (classifyWord (rev w))
      | _ \<Rightarrow> None)"
| "lexAll m acc (c # cs) =
     (case lexStep m acc c of
        None \<Rightarrow> None
      | Some (m', acc') \<Rightarrow> lexAll m' acc' cs)"

subsection \<open>The grammar\<close>

text \<open>
  The parser reads the tokens from left to right with a stack of the arrays and objects
  it is inside (innermost first; an object remembers the key that waits for its value)
  and the kind of token it expects next.
\<close>

datatype container =
    InArray "json list"
  | InObject "(jsstring \<times> json) list" "jsstring option"

datatype expect =
    ExpValue
  | ExpValueOrEnd
  | ExpKeyOrEnd
  | ExpKey
  | ExpColon
  | ExpCommaOrEnd
  | ExpNothing json

fun pushValue :: "json \<Rightarrow> container list \<Rightarrow> (expect \<times> container list) option" where
  "pushValue v [] = Some (ExpNothing v, [])"
| "pushValue v (InArray items # st) = Some (ExpCommaOrEnd, InArray (v # items) # st)"
| "pushValue v (InObject ms (Some k) # st) = Some (ExpCommaOrEnd, InObject ((k, v) # ms) None # st)"
| "pushValue v (InObject ms None # st) = None"

fun valueStart :: "token \<Rightarrow> container list \<Rightarrow> (expect \<times> container list) option" where
  "valueStart (TScalar v) st = pushValue v st"
| "valueStart (TString s) st = pushValue (JStr s) st"
| "valueStart TLBracket st = Some (ExpValueOrEnd, InArray [] # st)"
| "valueStart TLBrace st = Some (ExpKeyOrEnd, InObject [] None # st)"
| "valueStart _ st = None"

fun closeArray :: "container list \<Rightarrow> (expect \<times> container list) option" where
  "closeArray (InArray items # st) = pushValue (JArr (rev items)) st"
| "closeArray _ = None"

fun closeObject :: "container list \<Rightarrow> (expect \<times> container list) option" where
  "closeObject (InObject ms None # st) = pushValue (JObj (rev ms)) st"
| "closeObject _ = None"

fun setKey :: "jsstring \<Rightarrow> container list \<Rightarrow> (expect \<times> container list) option" where
  "setKey k (InObject ms None # st) = Some (ExpColon, InObject ms (Some k) # st)"
| "setKey k _ = None"

fun parseStep :: "expect \<Rightarrow> container list \<Rightarrow> token \<Rightarrow> (expect \<times> container list) option" where
  "parseStep ExpValue st tok = valueStart tok st"
| "parseStep ExpValueOrEnd st tok =
     (if tok = TRBracket then closeArray st else valueStart tok st)"
| "parseStep ExpKeyOrEnd st tok =
     (case tok of
        TString k \<Rightarrow> setKey k st
      | TRBrace \<Rightarrow> closeObject st
      | _ \<Rightarrow> None)"
| "parseStep ExpKey st tok =
     (case tok of
        TString k \<Rightarrow> setKey k st
      | _ \<Rightarrow> None)"
| "parseStep ExpColon st tok = (if tok = TColon then Some (ExpValue, st) else None)"
| "parseStep ExpCommaOrEnd st tok =
     (case st of
        [] \<Rightarrow> None
      | InArray items # st' \<Rightarrow>
          (if tok = TComma then Some (ExpValue, st)
           else if tok = TRBracket then closeArray st
           else None)
      | InObject ms k # st' \<Rightarrow>
          (if tok = TComma then Some (ExpKey, st)
           else if tok = TRBrace then closeObject st
           else None))"
| "parseStep (ExpNothing v) st tok = None"

fun parseTokens :: "expect \<Rightarrow> container list \<Rightarrow> token list \<Rightarrow> json option" where
  "parseTokens e st [] =
     (case e of
        ExpNothing v \<Rightarrow> (if st = [] then Some v else None)
      | _ \<Rightarrow> None)"
| "parseTokens e st (tok # toks) =
     (case parseStep e st tok of
        None \<Rightarrow> None
      | Some (e', st') \<Rightarrow> parseTokens e' st' toks)"

text \<open>
  \<^verbatim>\<open>JSON.parse(text)\<close>: the value, or \<open>None\<close> where the engine throws a \<^verbatim>\<open>SyntaxError\<close>.
\<close>

definition JSON_parse :: "jsstring \<Rightarrow> json option" where
  "JSON_parse text =
     (case lexAll LStart [] text of
        None \<Rightarrow> None
      | Some toks \<Rightarrow> parseTokens ExpValue [] toks)"

subsection \<open>Reading parsed values\<close>

text \<open>
  A number is falsy when it is zero as a double: the literal is zero, or its magnitude
  is at most \<open>2 ^ -1075\<close>, half the least positive double, and rounds to zero.
\<close>

definition numberIsZero :: "int \<Rightarrow> int \<Rightarrow> bool" where
  "numberIsZero m e \<longleftrightarrow> m = 0 \<or> (e < 0 \<and> \<bar>m\<bar> * 2 ^ 1075 \<le> 10 ^ nat (- e))"

fun truthy :: "jsval \<Rightarrow> bool" where
  "truthy None = False"
| "truthy (Some JNull) = False"
| "truthy (Some (JBool b)) = b"
| "truthy (Some (JNum m e)) = (\<not> numberIsZero m e)"
| "truthy (Some (JStr s)) = (s \<noteq> [])"
| "truthy (Some (JArr xs)) = True"
| "truthy (Some (JObj ms)) = True"

text \<open>\<^verbatim>\<open>a || b\<close> on values.\<close>

definition orElse :: "jsval \<Rightarrow> jsval \<Rightarrow> jsval" where
  "orElse a b = (if truthy a then a else b)"

text \<open>
  \<^verbatim>\<open>v.name\<close> for the property names the service reads (\<^verbatim>\<open>medications\<close>, \<^verbatim>\<open>visits\<close>,
  \<^verbatim>\<open>number\<close>, \<^verbatim>\<open>name\<close>, ...): \<open>None\<close> where the engine throws a \<^verbatim>\<open>TypeError\<close> (the
  receiver is \<^verbatim>\<open>null\<close>), otherwise the value read. An object yields its last member of
  that name, as \<^verbatim>\<open>JSON.parse\<close> lets a later duplicate win. None of those names is a
  property of an array, a string, a number or a boolean, or of \<^verbatim>\<open>Object.prototype\<close>, so
  every other receiver yields \<^verbatim>\<open>undefined\<close>.
\<close>

fun getProp :: "json \<Rightarrow> string \<Rightarrow> jsval option" where
  "getProp JNull name = None"
| "getProp (JObj ms) name = Some (map_of (rev ms) (js name))"
| "getProp v name = Some None"

section \<open>Repairing and parsing the model's answer\<close>

subsection \<open>\<^verbatim>\<open>fixIncompleteJSON\<close>\<close>

text \<open>
  Step 1, \<^verbatim>\<open>fixed.replace(/,(\s*[}\]])/g, '$1')\<close>: every comma that white space and then
  a closing brace or bracket follow is dropped. A match holds no second comma, so the
  scan can go on right behind the comma.
\<close>

definition closerFollows :: "jsstring \<Rightarrow> bool" where
  "closerFollows cs =
     (case dropWhile isWhiteSpace cs of
        [] \<Rightarrow> False
      | c # _ \<Rightarrow> c = 125 \<or> c = 93)"

fun removeTrailingCommas :: "jsstring \<Rightarrow> jsstring" where
  "removeTrailingCommas [] = []"
| "removeTrailingCommas (c # cs) =
     (if c = 44 \<and> closerFollows cs then removeTrailingCommas cs
      else c # removeTrailingCommas cs)"

text \<open>\<^verbatim>\<open>s.lastIndexOf(c)\<close>, \<open>None\<close> for \<^verbatim>\<open>-1\<close>.\<close>

fun lastIndexOf :: "nat \<Rightarrow> jsstring \<Rightarrow> nat option" where
  "lastIndexOf c [] = None"
| "lastIndexOf c (x # xs) =
     (case lastIndexOf c xs of
        Some i \<Rightarrow> Some (Suc i)
      | None \<Rightarrow> if x = c then Some 0 else None)"

definition countChar :: "nat \<Rightarrow> jsstring \<Rightarrow> nat" where
  "countChar c s = length (filter (\<lambda>x. x = c) s)"

text \<open>
  Step 2: with an odd number of double quotes and at least two of them, the text is cut
  behind its last quote and a quote is appended.
\<close>

definition closeString :: "jsstring \<Rightarrow> jsstring" where
  "closeString fixed =
     (let quotes = countChar 34 fixed;
          insideString = (quotes mod 2 \<noteq> 0)
      in if insideString then
           (case lastIndexOf 34 fixed of
              None \<Rightarrow> fixed
            | Some lastQuoteIndex \<Rightarrow>
                (let beforeLastQuote = take lastQuoteIndex fixed
                 in (case lastIndexOf 34 beforeLastQuote of
                       None \<Rightarrow> fixed
                     | Some lastKeyStart \<Rightarrow>
                         if lastKeyStart < lastQuoteIndex
                         then take (lastQuoteIndex + 1) fixed @ [34]
                         else fixed)))
         else fixed)"

text \<open>
  Step 3, \<^verbatim>\<open>fixed.replace(/,\s*"[^"]*:\s*[^,}\]]*$/, '')\<close>. \<open>keyTail\<close> matches
  \<^verbatim>\<open>[^"]*:\s*[^,}\]]*$\<close> (white space is among \<^verbatim>\<open>[^,}\]]\<close>), \<open>propertyTail\<close> what follows
  the comma; the leftmost comma that matches is cut off with all behind it.
\<close>

fun keyTail :: "jsstring \<Rightarrow> bool" where
  "keyTail [] = False"
| "keyTail (c # cs) =
     ((c = 58 \<and> list_all (\<lambda>d. d \<noteq> 44 \<and> d \<noteq> 125 \<and> d \<noteq> 93) cs) \<or> (c \<noteq> 34 \<and> keyTail cs))"

definition propertyTail :: "jsstring \<Rightarrow> bool" where
  "propertyTail cs =
     (case dropWhile isWhiteSpace cs of
        [] \<Rightarrow> False
      | c # r \<Rightarrow> c = 34 \<and> keyTail r)"

fun stripIncompleteProperty :: "jsstring \<Rightarrow> jsstring" where
  "stripIncompleteProperty [] = []"
| "stripIncompleteProperty (c # cs) =
     (if c = 44 \<and> propertyTail cs then []
      else c # stripIncompleteProperty cs)"

text \<open>
  Step 4 counts braces and brackets and appends the missing closing brackets, then the
  missing closing braces; a negative count appends nothing, as the source's loops.
\<close>

definition fixIncompleteJSON :: "jsstring \<Rightarrow> jsstring" where
  "fixIncompleteJSON jsonStr =
     (let fixed = removeTrailingCommas jsonStr;
          fixed = closeString fixed;
          fixed = stripIncompleteProperty fixed;
          openBraces = countChar 123 fixed;
          closeBraces = countChar 125 fixed;
          openBrackets = countChar 91 fixed;
          closeBrackets = countChar 93 fixed;
          missingBrackets = openBrackets - closeBrackets;
          missingBraces = openBraces - closeBraces
      in fixed @ replicate missingBrackets 93 @ replicate missingBraces 125)"

subsection \<open>\<^verbatim>\<open>parseJSONResponse\<close>\<close>

text \<open>
  The group of \<^verbatim>\<open>([\s\S]*?)\s*```\<close>: the shortest text after which white space and the
  closing fence follow.
\<close>

fun lazyUntilFence :: "jsstring \<Rightarrow> jsstring option" where
  "lazyUntilFence [] = None"
| "lazyUntilFence (c # cs) =
     (if startsWith (dropWhile isWhiteSpace (c # cs)) (js ''```'') then Some []
      else map_option ((#) c) (lazyUntilFence cs))"

text \<open>
  \<^verbatim>\<open>response.match(/<opening>\s*([\s\S]*?)\s*```/)\<close>, group 1 of the leftmost match, for the
  opening \<^verbatim>\<open>```json\<close> or \<^verbatim>\<open>```\<close>.
\<close>

fun fencedBlock :: "jsstring \<Rightarrow> jsstring \<Rightarrow> jsstring option" where
  "fencedBlock opening [] = None"
| "fencedBlock opening (c # cs) =
     (if startsWith (c # cs) opening then
        (case lazyUntilFence (dropWhile isWhiteSpace (drop (length opening) (c # cs))) of
           Some body \<Rightarrow> Some body
         | None \<Rightarrow> fencedBlock opening cs)
      else fencedBlock opening cs)"

text \<open>\<^verbatim>\<open>response.match(/\{[\s\S]*\}/)\<close>: from the first opening brace to the last closing one.\<close>

definition objectSpan :: "jsstring \<Rightarrow> jsstring option" where
  "objectSpan response =
     (case dropWhile (\<lambda>c. c \<noteq> 123) response of
        [] \<Rightarrow> None
      | b # rest \<Rightarrow>
          (case lastIndexOf 125 rest of
             None \<Rightarrow> None
           | Some i \<Rightarrow> Some (b # take (Suc i) rest)))"

definition extractJSONText :: "jsstring \<Rightarrow> jsstring" where
  "extractJSONText response =
     (case fencedBlock (js ''```json'') response of
        Some jsonMatch \<Rightarrow> jsonMatch
      | None \<Rightarrow>
          (case fencedBlock (js ''```'') response of
             Some codeMatch \<Rightarrow> codeMatch
           | None \<Rightarrow>
               (case objectSpan response of
                  Some objectMatch \<Rightarrow> objectMatch
                | None \<Rightarrow> response)))"

text \<open>
  One attempt of \<^verbatim>\<open>parseJSONResponse\<close>: \<^verbatim>\<open>JSON.parse\<close>, then the \<^verbatim>\<open>Object.keys(parsed)\<close>
  of the log line inside the same \<^verbatim>\<open>try\<close>, which throws a \<^verbatim>\<open>TypeError\<close> on \<^verbatim>\<open>null\<close>. \<open>None\<close>
  when the \<^verbatim>\<open>catch\<close> is entered.
\<close>

definition tryParse :: "jsstring \<Rightarrow> json option" where
  "tryParse jsonStr =
     (case JSON_parse jsonStr of
        None \<Rightarrow> None
      | Some parsed \<Rightarrow> if parsed = JNull then None else Some parsed)"

text \<open>
  \<open>errorMessage\<close> gives the engine's message of the exception the second attempt
  raised on the repaired text; its wording is the engine's and is a parameter.
\<close>

definition parseJSONResponse :: "(jsstring \<Rightarrow> jsstring) \<Rightarrow> jsstring \<Rightarrow> json Result" where
  "parseJSONResponse errorMessage response =
     (let jsonStr = extractJSONText response
      in (case tryParse jsonStr of
            Some parsed \<Rightarrow> ok parsed
          | None \<Rightarrow>
              (let fixed = fixIncompleteJSON jsonStr
               in (case tryParse fixed of
                     Some parsed \<Rightarrow> ok parsed
                   | None \<Rightarrow>
                       err (createError ''AI_PARSE_FAILED'' DOMAIN CRITICAL msgParseFailed
                              (errorMessage fixed)
                              [(''response'', CtxStr (take 1000 response))])))))"

section \<open>Rate limiter (GLMService.ts, class RateLimiter)\<close>

text \<open>
  Timestamps are the integer milliseconds \<^verbatim>\<open>Date.now()\<close> returns. The limiter keeps the
  array \<^verbatim>\<open>requests\<close> of recorded timestamps and its configuration.
\<close>

record RateLimitConfig =
  maxRequests :: nat
  windowMs :: int

record RateLimiter =
  requests :: "int list"
  rlConfig :: RateLimitConfig

text \<open>
  \<^verbatim>\<open>this.requests.filter((time) => time > windowStart)\<close>: the timestamps still inside the
  window that ends at \<open>now\<close>.
\<close>

definition recentRequests :: "int \<Rightarrow> RateLimiter \<Rightarrow> int list" where
  "recentRequests now rl =
     (let windowStart = now - windowMs (rlConfig rl)
      in filter (\<lambda>time. time > windowStart) (requests rl))"

text \<open>
  The delay handed to \<^verbatim>\<open>setTimeout\<close>, or \<open>0\<close> when no timer is set. With
  \<^verbatim>\<open>maxRequests <= 0\<close> and an empty array the source reads \<^verbatim>\<open>requests[0]\<close> as
  \<^verbatim>\<open>undefined\<close>, \<^verbatim>\<open>waitTime\<close> is \<^verbatim>\<open>NaN\<close>, and \<^verbatim>\<open>NaN > 0\<close> is false: no timer.
\<close>

definition sleepTime :: "int \<Rightarrow> RateLimiter \<Rightarrow> int" where
  "sleepTime now rl =
     (let reqs = recentRequests now rl
      in if length reqs \<ge> maxRequests (rlConfig rl) then
           (case reqs of
              [] \<Rightarrow> 0
            | oldestRequest # _ \<Rightarrow>
                (let waitTime = oldestRequest + windowMs (rlConfig rl) - now
                 in if waitTime > 0 then waitTime else 0))
         else 0)"

text \<open>
  \<^verbatim>\<open>waitForSlot\<close>. \<open>now\<close> is the first \<^verbatim>\<open>Date.now()\<close>; the second one, whose value is
  pushed, is read after the timer fired: \<open>now + sleepTime + late\<close>, where \<open>late\<close> is
  the time by which the event loop resumed the call after the requested delay (any
  natural number; \<open>0\<close> for an exact timer). The result is the recorded timestamp and the
  updated limiter. The call always records a timestamp: there is no rejecting branch.
\<close>

definition waitForSlot :: "int \<Rightarrow> nat \<Rightarrow> RateLimiter \<Rightarrow> int \<times> RateLimiter" where
  "waitForSlot now late rl =
     (let reqs = recentRequests now rl;
          stamp = now + sleepTime now rl + int late
      in (stamp, rl\<lparr>requests := reqs @ [stamp]\<rparr>))"

definition reset :: "RateLimiter \<Rightarrow> RateLimiter" where
  "reset rl = rl\<lparr>requests := []\<rparr>"

definition newRateLimiter :: "RateLimitConfig \<Rightarrow> RateLimiter" where
  "newRateLimiter cfg = \<lparr>requests = [], rlConfig = cfg\<rparr>"

text \<open>
  A sequence of sequential calls: each call starts \<open>gap\<close> milliseconds after the previous
  one returned (at its recorded timestamp) and resumes \<open>late\<close> milliseconds after its
  timer. \<open>admissions\<close> lists the timestamps recorded, one per call.
\<close>

fun admissions :: "int \<Rightarrow> RateLimiter \<Rightarrow> (nat \<times> nat) list \<Rightarrow> int list" where
  "admissions clock rl [] = []"
| "admissions clock rl ((gap, late) # calls) =
     (let (stamp, rl') = waitForSlot (clock + int gap) late rl
      in stamp # admissions stamp rl' calls)"

text \<open>The number of timestamps of \<open>adm\<close> in the trailing window \<open>(t - w, t]\<close>.\<close>

definition admittedWithin :: "int \<Rightarrow> int \<Rightarrow> int list \<Rightarrow> nat" where
  "admittedWithin w t adm = length (filter (\<lambda>a. t - w < a \<and> a \<le> t) adm)"

section \<open>The service (class GLMService)\<close>

text \<open>
  \<^verbatim>\<open>GLMConfig\<close>. An optional field that is absent is written as the falsy value of its
  type (\<open>0\<close>, the empty string): the constructor only asks \<^verbatim>\<open>config.x || default\<close>, which
  treats both alike. Counts are natural numbers.
\<close>

record GLMConfig =
  apiKey :: jsstring
  model :: jsstring
  temperature :: rat
  topP :: rat
  maxTokens :: nat
  timeout :: nat
  maxRetries :: nat
  maxRequestsPerMinute :: nat
  proxy :: jsstring

record GLMService =
  config :: GLMConfig
  rateLimiter :: RateLimiter
  baseURL :: jsstring
  initialized :: bool

text \<open>The constructor.\<close>

definition newGLMService :: "GLMConfig \<Rightarrow> GLMService" where
  "newGLMService c =
     (let cfg = \<lparr>apiKey = apiKey c,
                 model = (if model c = [] then js ''glm-4'' else model c),
                 temperature = (if temperature c = 0 then 3 / 10 else temperature c),
                 topP = (if topP c = 0 then 7 / 10 else topP c),
                 maxTokens = (if maxTokens c = 0 then 10000 else maxTokens c),
                 timeout = (if timeout c = 0 then 120000 else timeout c),
                 maxRetries = (if maxRetries c = 0 then 3 else maxRetries c),
                 maxRequestsPerMinute =
                   (if maxRequestsPerMinute c = 0 then 60 else maxRequestsPerMinute c),
                 proxy = proxy c\<rparr>
      in \<lparr>config = cfg,
          rateLimiter =
            newRateLimiter \<lparr>maxRequests = maxRequestsPerMinute cfg, windowMs = 60000\<rparr>,
          baseURL = js ''https://open.bigmodel.cn/api/paas/v4/chat/completions'',
          initialized = False\<rparr>)"

definition initialize :: "GLMService \<Rightarrow> unit Result \<times> GLMService" where
  "initialize svc =
     (if apiKey (config svc) = [] then
        (err (createError ''AI_NO_API_KEY'' DOMAIN CRITICAL msgNoApiKey
                (js ''API key is not configured'')
                [(''source'', CtxStr (js ''GLMService''))]),
         svc)
      else (ok (), svc\<lparr>initialized := True\<rparr>))"

definition updateApiKey :: "jsstring \<Rightarrow> GLMService \<Rightarrow> unit Result \<times> GLMService" where
  "updateApiKey key svc =
     initialize (svc\<lparr>config := (config svc)\<lparr>apiKey := key\<rparr>, initialized := False\<rparr>)"

definition resetRateLimiter :: "GLMService \<Rightarrow> GLMService" where
  "resetRateLimiter svc = svc\<lparr>rateLimiter := reset (rateLimiter svc)\<rparr>"

subsection \<open>\<^verbatim>\<open>isRetryableError\<close>\<close>

text \<open>\<^verbatim>\<open>/5\d\d/.test(s)\<close>.\<close>

fun has5xx :: "jsstring \<Rightarrow> bool" where
  "has5xx (a # b # c # cs) = ((a = 53 \<and> isDigit b \<and> isDigit c) \<or> has5xx (b # c # cs))"
| "has5xx _ = False"

definition retryableCodes :: "jsstring list" where
  "retryableCodes =
     [js ''ECONNRESET'', js ''ECONNABORTED'', js ''ETIMEDOUT'', js ''ENOTFOUND'', js ''EPIPE'',
      js ''EAI_AGAIN'']"

definition isRetryableError :: "jserror \<Rightarrow> bool" where
  "isRetryableError error =
     (let errorMessage = message error
      in if (case errorCode error of
               None \<Rightarrow> False
             | Some c \<Rightarrow> c \<noteq> [] \<and> c \<in> set retryableCodes)
         then True
         else includes_ci errorMessage (js ''socket hang up'')
            \<or> includes_ci errorMessage (js ''timeout'')
            \<or> includes_ci errorMessage (js ''network'')
            \<or> includes_ci errorMessage (js ''fetch failed'')
            \<or> has5xx errorMessage)"

subsection \<open>\<^verbatim>\<open>callWithRetry\<close>\<close>

text \<open>
  The transport \<^verbatim>\<open>fn\<close> is a computation with effects of its own: a function from the
  state of whatever it talks to, to how its promise settles and the new state. A run
  reports the \<^verbatim>\<open>Result\<close>, the number of times \<^verbatim>\<open>fn\<close> was called, the delays handed to
  \<^verbatim>\<open>setTimeout\<close> between attempts (in order) and the transport's final state. \<open>rnd k\<close> is
  the value \<^verbatim>\<open>Math.random()\<close> returns after failed attempt \<open>k\<close>.

  A delay is a double that the engine computes. Its arithmetic is not interpreted here:
  a delay is kept as the expression the source evaluates, over number literals and
  values read (\<open>DNum\<close>), \<^verbatim>\<open>Math.pow(2, n)\<close> (\<open>DPow2\<close>), \<^verbatim>\<open>*\<close> and \<^verbatim>\<open>+\<close>.
\<close>

datatype dexp = DNum rat | DPow2 nat | DTimes dexp dexp | DPlus dexp dexp

record ('a, 's) RetryRun =
  rrResult :: "'a Result"
  rrCalls :: nat
  rrDelays :: "dexp list"
  rrTransport :: 's

text \<open>The code after the loop: all retries exhausted.\<close>

definition exhausted :: "nat \<Rightarrow> string \<Rightarrow> jserror option \<Rightarrow> AppError" where
  "exhausted maxR ctxName lastError =
     (let errorCode = (case lastError of None \<Rightarrow> None | Some e \<Rightarrow> errorCode e);
          errorMessage =
            (case lastError of
               None \<Rightarrow> js ''Unknown error''
             | Some e \<Rightarrow> if message e = [] then js ''Unknown error'' else message e);
          userMessage =
            (if errorCode = Some (js ''ECONNRESET'') then msgConnReset
             else if errorCode = Some (js ''ETIMEDOUT'') then msgTimedOut
             else if errorCode = Some (js ''ENOTFOUND'') then msgNotFound
             else msgRequestFailed)
      in createError ''AI_REQUEST_FAILED'' NETWORK CRITICAL userMessage errorMessage
           [(''attempts'', CtxNum maxR), (''context'', CtxStr (js ctxName)),
            (''errorCode'', (case errorCode of None \<Rightarrow> CtxUndefined | Some c \<Rightarrow> CtxStr c))])"

text \<open>
  The loop \<^verbatim>\<open>for (let attempt = 0; attempt < maxRetries; attempt++)\<close>, from \<open>attempt\<close> on,
  with the last error and the delays so far.
\<close>

function retryLoop ::
  "nat \<Rightarrow> string \<Rightarrow> (nat \<Rightarrow> rat) \<Rightarrow> ('s \<Rightarrow> 'a completion \<times> 's) \<Rightarrow>
   nat \<Rightarrow> jserror option \<Rightarrow> dexp list \<Rightarrow> 's \<Rightarrow> ('a, 's) RetryRun" where
  "retryLoop maxR ctxName rnd fn attempt lastError delays s =
     (if attempt < maxR then
        (case fn s of
           (Resolved r, s') \<Rightarrow>
             \<lparr>rrResult = ok r, rrCalls = attempt + 1, rrDelays = delays, rrTransport = s'\<rparr>
         | (Rejected error, s') \<Rightarrow>
             if includes_str (message error) (js ''401'') \<or> includes_str (message error) (js ''403'')
             then
               \<lparr>rrResult = err (createError ''AI_AUTH_FAILED'' NETWORK CRITICAL msgAuthFailed
                    (message error)
                    [(''attempt'', CtxNum attempt), (''context'', CtxStr (js ctxName))]),
                rrCalls = attempt + 1, rrDelays = delays, rrTransport = s'\<rparr>
             else if includes_str (message error) (js ''400'') then
               \<lparr>rrResult = err (createError ''AI_BAD_REQUEST'' DOMAIN CRITICAL msgBadRequest
                    (message error)
                    [(''attempt'', CtxNum attempt), (''context'', CtxStr (js ctxName))]),
                rrCalls = attempt + 1, rrDelays = delays, rrTransport = s'\<rparr>
             else if \<not> isRetryableError error then
               \<lparr>rrResult = err (createError ''AI_REQUEST_FAILED'' NETWORK CRITICAL
                    msgRequestFailed (message error)
                    [(''attempts'', CtxNum (attempt + 1)), (''context'', CtxStr (js ctxName))]),
                rrCalls = attempt + 1, rrDelays = delays, rrTransport = s'\<rparr>
             else
               (let delays' =
                      (if attempt < maxR - 1 then
                         (let baseDelay = DTimes (DNum 1000) (DPow2 attempt);
                              jitter = DTimes (DNum (rnd attempt)) (DNum 500);
                              delay = DPlus baseDelay jitter
                          in delays @ [delay])
                       else delays)
                in retryLoop maxR ctxName rnd fn (attempt + 1) (Some error) delays' s'))
      else
        \<lparr>rrResult = err (exhausted maxR ctxName lastError),
         rrCalls = attempt, rrDelays = delays, rrTransport = s\<rparr>)"
  by pat_completeness auto
termination
  by (relation "measure (\<lambda>(maxR, ctxName, rnd, fn, attempt, lastError, delays, s). maxR - attempt)")
     auto

text \<open>
  \<^verbatim>\<open>callWithRetry\<close>. \<open>tnow\<close> and \<open>late\<close> are the clock readings of the one
  \<^verbatim>\<open>waitForSlot\<close> call it makes before the first attempt.
\<close>

definition callWithRetry ::
  "GLMService \<Rightarrow> int \<Rightarrow> nat \<Rightarrow> (nat \<Rightarrow> rat) \<Rightarrow> ('s \<Rightarrow> 'a completion \<times> 's) \<Rightarrow> string \<Rightarrow> 's \<Rightarrow>
   ('a, 's) RetryRun \<times> GLMService" where
  "callWithRetry svc tnow late rnd fn ctxName s =
     (if \<not> initialized svc then
        (\<lparr>rrResult = err (createError ''AI_NOT_INITIALIZED'' DOMAIN CRITICAL msgNotInitialized
              (js ''GLM service is not initialized'')
              [(''source'', CtxStr (js ''GLMService''))]),
          rrCalls = 0, rrDelays = [], rrTransport = s\<rparr>,
         svc)
      else
        (let (stamp, rl') = waitForSlot tnow late (rateLimiter svc)
         in (retryLoop (maxRetries (config svc)) ctxName rnd fn 0 None [] s,
             svc\<lparr>rateLimiter := rl'\<rparr>)))"

subsection \<open>\<^verbatim>\<open>generateToken\<close> and \<^verbatim>\<open>callAPI\<close>\<close>

text \<open>
  \<^verbatim>\<open>generateToken\<close> up to the point where the key is split: the exception it throws, or
  the identifier and the secret. The signature it then computes (HMAC-SHA256, base64url)
  is outside the model.
\<close>

definition generateToken :: "jsstring \<Rightarrow> jserror + (jsstring \<times> jsstring)" where
  "generateToken key =
     (case split_str 46 key of
        [ident, secret] \<Rightarrow> Inr (ident, secret)
      | _ \<Rightarrow> Inl (JSError msgTokenFormat None))"

text \<open>
  \<^verbatim>\<open>callAPI\<close>. The HTTPS exchange (the request, the handlers of \<^verbatim>\<open>end\<close>, \<^verbatim>\<open>error\<close> and
  \<^verbatim>\<open>timeout\<close>) is the parameter \<open>https\<close>: given the credentials and the state of the
  network it settles the promise and leaves a new state. It is reached only behind the
  three checks of the key. The content it resolves with is a string, as the interface
  \<^verbatim>\<open>APIResponse\<close> declares it and as the operations take it.
\<close>

definition callAPI ::
  "GLMService \<Rightarrow> (jsstring \<times> jsstring \<Rightarrow> 's \<Rightarrow> jsstring completion \<times> 's) \<Rightarrow> 's \<Rightarrow>
   jsstring completion \<times> 's" where
  "callAPI svc https s =
     (let key = apiKey (config svc)
      in if key = [] \<or> length (trim key) = 0 then (Rejected (JSError msgKeyUnset None), s)
         else if \<not> includes_str key (js ''.'') then (Rejected (JSError msgKeyFormat None), s)
         else (case generateToken key of
                 Inl e \<Rightarrow> (Rejected e, s)
               | Inr token \<Rightarrow> https token s))"

text \<open>
  The error the \<^verbatim>\<open>end\<close> handler throws for a response whose status is not 200:
  \<^verbatim>\<open>new Error(`API returned status ${res.statusCode}: ${data}`)\<close>.
\<close>

definition statusError :: "nat \<Rightarrow> jsstring \<Rightarrow> jserror" where
  "statusError statusCode body =
     JSError (js ''API returned status '' @ showNat statusCode @ js '': '' @ body) None"

text \<open>
  The error the \<^verbatim>\<open>timeout\<close> handler rejects with:
  \<^verbatim>\<open>new Error(`Request timeout after ${this.config.timeout}ms`)\<close>.
\<close>

definition timeoutError :: "nat \<Rightarrow> jserror" where
  "timeoutError ms = JSError (js ''Request timeout after '' @ showNat ms @ js ''ms'') None"

subsection \<open>The extraction operations\<close>

text \<open>
  What a call reads from outside: the clock readings of \<^verbatim>\<open>waitForSlot\<close>, the values of
  \<^verbatim>\<open>Math.random()\<close>, the \<^verbatim>\<open>Date.now()\<close> that stamps the identifiers, and the engine's
  wording of a parse error.
\<close>

record Env =
  envNow :: int
  envLate :: nat
  envRandom :: "nat \<Rightarrow> rat"
  envIdTime :: nat
  envParseError :: "jsstring \<Rightarrow> jsstring"

record ('a, 's) OpRun =
  opOutcome :: "'a Result outcome"
  opCalls :: nat
  opDelays :: "dexp list"
  opService :: GLMService
  opTransport :: 's

text \<open>
  Every operation starts with the same statement,
  \<^verbatim>\<open>await this.callWithRetry(async () => this.callAPI([...]), name)\<close>. The prompt it builds
  (\<^verbatim>\<open>truncateContent\<close>, \<^verbatim>\<open>formatPrompt\<close>) goes into the request body only; what the network
  answers is \<open>https\<close>.
\<close>

definition askModel ::
  "GLMService \<Rightarrow> Env \<Rightarrow> (jsstring \<times> jsstring \<Rightarrow> 's \<Rightarrow> jsstring completion \<times> 's) \<Rightarrow> string \<Rightarrow> 's \<Rightarrow>
   (jsstring, 's) RetryRun \<times> GLMService" where
  "askModel svc env https ctxName s =
     callWithRetry svc (envNow env) (envLate env) (envRandom env) (callAPI svc https) ctxName s"

text \<open>
  \<^verbatim>\<open>xs.map((item, index) => ...)\<close> where the callback may throw: \<open>None\<close> is the
  \<^verbatim>\<open>TypeError\<close>. \<open>arrayMap\<close> is the call \<^verbatim>\<open>v.map(...)\<close> on any value: only an array has
  the method.
\<close>

fun mapIndexed :: "(json \<Rightarrow> nat \<Rightarrow> 'b option) \<Rightarrow> nat \<Rightarrow> json list \<Rightarrow> 'b list option" where
  "mapIndexed f i [] = Some []"
| "mapIndexed f i (x # xs) =
     (case f x i of
        None \<Rightarrow> None
      | Some y \<Rightarrow>
          (case mapIndexed f (Suc i) xs of
             None \<Rightarrow> None
           | Some ys \<Rightarrow> Some (y # ys)))"

fun arrayMap :: "(json \<Rightarrow> nat \<Rightarrow> 'b option) \<Rightarrow> json \<Rightarrow> 'b list option" where
  "arrayMap f (JArr xs) = mapIndexed f 0 xs"
| "arrayMap f _ = None"

text \<open>\<^verbatim>\<open>v || d\<close> with a default that is a value.\<close>

fun orDefault :: "jsval \<Rightarrow> json \<Rightarrow> json" where
  "orDefault None d = d"
| "orDefault (Some v) d = (if truthy (Some v) then v else d)"

text \<open>\<^verbatim>\<open>v ?? true\<close>.\<close>

fun orTrue :: "jsval \<Rightarrow> jsval" where
  "orTrue None = Some (JBool True)"
| "orTrue (Some JNull) = Some (JBool True)"
| "orTrue (Some v) = Some v"

text \<open>
  \<^verbatim>\<open>new Date(v)\<close> first converts an object or an array to a primitive, and the conversion
  throws a \<^verbatim>\<open>TypeError\<close> when neither \<^verbatim>\<open>valueOf\<close> nor \<^verbatim>\<open>toString\<close> is callable and yields a
  primitive. A parsed object inherits both from \<^verbatim>\<open>Object.prototype\<close> unless it has a member
  of that name, and no member of a parsed object is callable; the inherited \<^verbatim>\<open>valueOf\<close>
  yields the object itself. So the conversion of an object throws exactly when the
  object has a member \<^verbatim>\<open>toString\<close>. An array is converted by \<^verbatim>\<open>join\<close>, which converts each
  element other than \<^verbatim>\<open>null\<close> to a string and throws when one of these conversions does.
  No other value throws. The date that is built is not interpreted.
\<close>

fun conversionThrows :: "json \<Rightarrow> bool" where
  "conversionThrows (JObj ms) = (js ''toString'' \<in> set (map fst ms))"
| "conversionThrows (JArr xs) = list_ex conversionThrows xs"
| "conversionThrows v = False"

datatype jsdate = NewDate jsval

fun newDate :: "jsval \<Rightarrow> jsdate option" where
  "newDate None = Some (NewDate None)"
| "newDate (Some v) = (if conversionThrows v then None else Some (NewDate (Some v)))"

text \<open>The identifier \<^verbatim>\<open>`${prefix}-${Date.now()}-${index}`\<close>.\<close>

definition makeId :: "string \<Rightarrow> nat \<Rightarrow> nat \<Rightarrow> jsstring" where
  "makeId prefix t idx = js prefix @ js ''-'' @ showNat t @ js ''-'' @ showNat idx"

text \<open>
  The items the operations return. \<^verbatim>\<open>InclusionCriteria\<close> and \<^verbatim>\<open>ExclusionCriteria\<close> have the
  same fields and share \<open>Criterion\<close>. A field copied from the parsed answer holds
  whatever value was there.
\<close>

record Criterion =
  crId :: jsstring
  crNumber :: jsval
  crDescription :: jsval
  crCategory :: jsval
  crAiExtracted :: bool

record CriteriaSet =
  inclusionCriteria :: "Criterion list"
  exclusionCriteria :: "Criterion list"

record Procedure =
  prId :: jsstring
  prName :: jsval
  prCategory :: jsval
  prTiming :: jsval
  prRequired :: jsval

record Assessment =
  asId :: jsstring
  asName :: jsval
  asType :: jsval
  asTiming :: jsval
  asRequired :: jsval

record VisitSchedule =
  vsId :: jsstring
  visitNumber :: jsval
  visitName :: jsval
  windowStart :: jsval
  windowEnd :: jsval
  procedures :: "Procedure list"
  assessments :: "Assessment list"
  vsAiExtracted :: bool

record MedicationRecord =
  mrId :: jsstring
  medicationName :: jsval
  dosage :: jsval
  frequency :: jsval
  route :: jsval
  startDate :: jsdate
  endDate :: "jsdate option"
  indication :: jsval
  mrAiRecognized :: bool
  mrConfidence :: jsval

text \<open>
  The callbacks of \<^verbatim>\<open>map\<close>. Reading a field of an item throws when the item is \<^verbatim>\<open>null\<close>,
  and \<^verbatim>\<open>new Date\<close> throws as described above; \<open>None\<close> is that \<^verbatim>\<open>TypeError\<close>.
\<close>

definition toCriterion :: "string \<Rightarrow> nat \<Rightarrow> json \<Rightarrow> nat \<Rightarrow> Criterion option" where
  "toCriterion prefix t item index =
     do {
       number \<leftarrow> getProp item ''number'';
       description \<leftarrow> getProp item ''description'';
       category \<leftarrow> getProp item ''category'';
       Some \<lparr>crId = makeId prefix t index, crNumber = number, crDescription = description,
             crCategory = category, crAiExtracted = True\<rparr>
     }"

definition toProcedure :: "nat \<Rightarrow> nat \<Rightarrow> json \<Rightarrow> nat \<Rightarrow> Procedure option" where
  "toProcedure t index p i =
     do {
       name \<leftarrow> getProp p ''name'';
       category \<leftarrow> getProp p ''category'';
       timing \<leftarrow> getProp p ''timing'';
       required \<leftarrow> getProp p ''required'';
       Some \<lparr>prId = makeId ''proc'' t index @ js ''-'' @ showNat i, prName = name,
             prCategory = category, prTiming = timing, prRequired = orTrue required\<rparr>
     }"

definition toAssessment :: "nat \<Rightarrow> nat \<Rightarrow> json \<Rightarrow> nat \<Rightarrow> Assessment option" where
  "toAssessment t index a i =
     do {
       name \<leftarrow> getProp a ''name'';
       type \<leftarrow> getProp a ''type'';
       timing \<leftarrow> getProp a ''timing'';
       required \<leftarrow> getProp a ''required'';
       Some \<lparr>asId = makeId ''assess'' t index @ js ''-'' @ showNat i, asName = name,
             asType = type, asTiming = timing, asRequired = orTrue required\<rparr>
     }"

definition toVisit :: "nat \<Rightarrow> json \<Rightarrow> nat \<Rightarrow> VisitSchedule option" where
  "toVisit t item index =
     do {
       number \<leftarrow> getProp item ''visitNumber'';
       name \<leftarrow> getProp item ''visitName'';
       wstart \<leftarrow> getProp item ''windowStart'';
       wend \<leftarrow> getProp item ''windowEnd'';
       procs \<leftarrow> getProp item ''procedures'';
       ps \<leftarrow> arrayMap (toProcedure t index) (orDefault procs (JArr []));
       assess \<leftarrow> getProp item ''assessments'';
       as \<leftarrow> arrayMap (toAssessment t index) (orDefault assess (JArr []));
       Some \<lparr>vsId = makeId ''visit'' t index, visitNumber = number, visitName = name,
             windowStart = wstart, windowEnd = wend, procedures = ps, assessments = as,
             vsAiExtracted = True\<rparr>
     }"

definition toMedication :: "nat \<Rightarrow> json \<Rightarrow> nat \<Rightarrow> MedicationRecord option" where
  "toMedication t item index =
     do {
       name \<leftarrow> getProp item ''medicationName'';
       dos \<leftarrow> getProp item ''dosage'';
       freq \<leftarrow> getProp item ''frequency'';
       rte \<leftarrow> getProp item ''route'';
       sd \<leftarrow> getProp item ''startDate'';
       dstart \<leftarrow> newDate sd;
       ed \<leftarrow> getProp item ''endDate'';
       dend \<leftarrow> (if truthy ed then map_option Some (newDate ed) else Some None);
       ind \<leftarrow> getProp item ''indication'';
       conf \<leftarrow> getProp item ''confidence'';
       Some \<lparr>mrId = makeId ''med'' t index, medicationName = name, dosage = dos,
             frequency = freq, route = rte, startDate = dstart, endDate = dend,
             indication = ind, mrAiRecognized = True, mrConfidence = conf\<rparr>
     }"

text \<open>
  The statements of each operation behind \<^verbatim>\<open>parseJSONResponse\<close>, on the parsed \<open>data\<close>:
  \<open>None\<close> where a \<^verbatim>\<open>TypeError\<close> is thrown. No \<^verbatim>\<open>try\<close> surrounds them in the source.
\<close>

definition criteriaOf :: "nat \<Rightarrow> json \<Rightarrow> CriteriaSet option" where
  "criteriaOf t data =
     do {
       inc \<leftarrow> getProp data ''inclusionCriteria'';
       incs \<leftarrow> arrayMap (toCriterion ''inc'' t) (orDefault inc (JArr []));
       exc \<leftarrow> getProp data ''exclusionCriteria'';
       excs \<leftarrow> arrayMap (toCriterion ''exc'' t) (orDefault exc (JArr []));
       Some \<lparr>inclusionCriteria = incs, exclusionCriteria = excs\<rparr>
     }"

definition visitScheduleOf :: "nat \<Rightarrow> json \<Rightarrow> VisitSchedule list option" where
  "visitScheduleOf t data =
     do {
       vs \<leftarrow> getProp data ''visitSchedule'';
       arrayMap (toVisit t) (orDefault vs (JArr []))
     }"

definition medicationsOf :: "nat \<Rightarrow> json \<Rightarrow> MedicationRecord list option" where
  "medicationsOf t data =
     do {
       ms \<leftarrow> getProp data ''medications'';
       arrayMap (toMedication t) (orDefault ms (JArr []))
     }"

definition subjectNumberOf :: "json \<Rightarrow> json option" where
  "subjectNumberOf data =
     do {
       v \<leftarrow> getProp data ''subjectNumber'';
       Some (orDefault v (JStr []))
     }"

definition visitsOf :: "json \<Rightarrow> json option" where
  "visitsOf data =
     do {
       v \<leftarrow> getProp data ''visits'';
       Some (orDefault v (JArr []))
     }"

definition itemsOf :: "json \<Rightarrow> json option" where
  "itemsOf data =
     do {
       v \<leftarrow> getProp data ''items'';
       Some (orDefault v (JArr []))
     }"

text \<open>
  The body the six operations share: ask the model, return its error; parse the answer,
  return the parse error; transform. Each operation is this body with its own name and
  transformation.
\<close>

definition extractWith ::
  "string \<Rightarrow> (json \<Rightarrow> 'a option) \<Rightarrow> GLMService \<Rightarrow> Env \<Rightarrow>
   (jsstring \<times> jsstring \<Rightarrow> 's \<Rightarrow> jsstring completion \<times> 's) \<Rightarrow> 's \<Rightarrow> ('a, 's) OpRun" where
  "extractWith ctxName transform svc env https s =
     (let (run, svc') = askModel svc env https ctxName s;
          out =
            (case rrResult run of
               Inl e \<Rightarrow> Returned (err e)
             | Inr response \<Rightarrow>
                 (case parseJSONResponse (envParseError env) response of
                    Inl e \<Rightarrow> Returned (err e)
                  | Inr data \<Rightarrow>
                      (case transform data of
                         None \<Rightarrow> ThrewTypeError
                       | Some v \<Rightarrow> Returned (ok v))))
      in \<lparr>opOutcome = out, opCalls = rrCalls run, opDelays = rrDelays run,
          opService = svc', opTransport = rrTransport run\<rparr>)"

definition extractCriteria ::
  "GLMService \<Rightarrow> Env \<Rightarrow> (jsstring \<times> jsstring \<Rightarrow> 's \<Rightarrow> jsstring completion \<times> 's) \<Rightarrow> 's \<Rightarrow>
   (CriteriaSet, 's) OpRun" where
  "extractCriteria svc env = extractWith ''extractCriteria'' (criteriaOf (envIdTime env)) svc env"

definition extractVisitSchedule ::
  "GLMService \<Rightarrow> Env \<Rightarrow> (jsstring \<times> jsstring \<Rightarrow> 's \<Rightarrow> jsstring completion \<times> 's) \<Rightarrow> 's \<Rightarrow>
   (VisitSchedule list, 's) OpRun" where
  "extractVisitSchedule svc env =
     extractWith ''extractVisitSchedule'' (visitScheduleOf (envIdTime env)) svc env"

definition recognizeMedications ::
  "GLMService \<Rightarrow> Env \<Rightarrow> (jsstring \<times> jsstring \<Rightarrow> 's \<Rightarrow> jsstring completion \<times> 's) \<Rightarrow> 's \<Rightarrow>
   (MedicationRecord list, 's) OpRun" where
  "recognizeMedications svc env =
     extractWith ''recognizeMedications'' (medicationsOf (envIdTime env)) svc env"

definition extractSubjectNumber ::
  "GLMService \<Rightarrow> Env \<Rightarrow> (jsstring \<times> jsstring \<Rightarrow> 's \<Rightarrow> jsstring completion \<times> 's) \<Rightarrow> 's \<Rightarrow>
   (json, 's) OpRun" where
  "extractSubjectNumber svc env = extractWith ''extractSubjectNumber'' subjectNumberOf svc env"

definition extractSubjectVisitDates ::
  "GLMService \<Rightarrow> Env \<Rightarrow> (jsstring \<times> jsstring \<Rightarrow> 's \<Rightarrow> jsstring completion \<times> 's) \<Rightarrow> 's \<Rightarrow>
   (json, 's) OpRun" where
  "extractSubjectVisitDates svc env = extractWith ''extractSubjectVisitDates'' visitsOf svc env"

definition extractSubjectVisitItems ::
  "GLMService \<Rightarrow> Env \<Rightarrow> (jsstring \<times> jsstring \<Rightarrow> 's \<Rightarrow> jsstring completion \<times> 's) \<Rightarrow> 's \<Rightarrow>
   (json, 's) OpRun" where
  "extractSubjectVisitItems svc env = extractWith ''extractSubjectVisitItems'' itemsOf svc env"

section \<open>The singleton (\<^verbatim>\<open>createGLMService\<close>, \<^verbatim>\<open>getGLMService\<close>)\<close>

text \<open>
  The module's state: the service objects allocated so far (an object's address is its
  position) and the variable \<^verbatim>\<open>glmServiceInstance\<close>, \<open>None\<close> for \<^verbatim>\<open>null\<close>.
  \<open>createGLMService\<close> returns the address of the instance and the new state.
\<close>

record Module =
  heap :: "GLMService list"
  glmServiceInstance :: "nat option"

definition createGLMService :: "GLMConfig \<Rightarrow> Module \<Rightarrow> nat \<times> Module" where
  "createGLMService cfg m =
     (case glmServiceInstance m of
        None \<Rightarrow>
          (let r = length (heap m)
           in (r, m\<lparr>heap := heap m @ [newGLMService cfg], glmServiceInstance := Some r\<rparr>))
      | Some r \<Rightarrow> (r, m))"

definition getGLMService :: "Module \<Rightarrow> nat option" where
  "getGLMService m = glmServiceInstance m"

text \<open>Calling \<open>createGLMService\<close> with each configuration of a list, in order.\<close>

fun createAll :: "GLMConfig list \<Rightarrow> Module \<Rightarrow> nat list \<times> Module" where
  "createAll [] m = ([], m)"
| "createAll (cfg # cfgs) m =
     (let (r, m') = createGLMService cfg m;
          (rs, m'') = createAll cfgs m'
      in (r # rs, m''))"

text \<open>
  The invariant of a run: \<open>adm\<close> is every timestamp recorded so far, \<open>clock\<close> the time the
  last call returned. No recorded timestamp lies in the future, the array \<^verbatim>\<open>requests\<close>
  agrees with the history above every threshold that can still matter, and no trailing
  window holds more than \<^verbatim>\<open>maxRequests\<close> timestamps.
\<close>

definition limiterInv :: "int \<Rightarrow> RateLimiter \<Rightarrow> int list \<Rightarrow> bool" where
  "limiterInv clock rl adm \<longleftrightarrow>
     (\<forall>a \<in> set adm. a \<le> clock) \<and>
     (\<forall>c. clock - windowMs (rlConfig rl) \<le> c \<longrightarrow>
        filter (\<lambda>a. c < a) adm = filter (\<lambda>a. c < a) (requests rl)) \<and>
     (\<forall>t. admittedWithin (windowMs (rlConfig rl)) t adm \<le> maxRequests (rlConfig rl))"

section \<open>Notions used in the statements\<close>

text \<open>
  The state of a transport after \<open>k\<close> calls from state \<open>s\<close>, and how its call number
  \<open>k\<close> (counted from 0) settles.
\<close>

fun stateAfter :: "('s \<Rightarrow> 'a completion \<times> 's) \<Rightarrow> 's \<Rightarrow> nat \<Rightarrow> 's" where
  "stateAfter fn s 0 = s"
| "stateAfter fn s (Suc k) = stateAfter fn (snd (fn s)) k"

definition outcomeAt :: "('s \<Rightarrow> 'a completion \<times> 's) \<Rightarrow> 's \<Rightarrow> nat \<Rightarrow> 'a completion" where
  "outcomeAt fn s k = fst (fn (stateAfter fn s k))"

text \<open>
  An error that \<^verbatim>\<open>callWithRetry\<close> retries: its message holds none of \<^verbatim>\<open>401\<close>, \<^verbatim>\<open>403\<close>,
  \<^verbatim>\<open>400\<close>, and \<^verbatim>\<open>isRetryableError\<close> accepts it.
\<close>

definition transient :: "jserror \<Rightarrow> bool" where
  "transient e \<longleftrightarrow>
     \<not> includes_str (message e) (js ''401'') \<and> \<not> includes_str (message e) (js ''403'') \<and>
     \<not> includes_str (message e) (js ''400'') \<and> isRetryableError e"

text \<open>
  The delay after failed attempt \<open>k\<close>, \<^verbatim>\<open>1000 * Math.pow(2, attempt) + Math.random() * 500\<close>,
  and the value of a delay in exact arithmetic, which the double of the engine
  approximates.
\<close>

definition backoff :: "(nat \<Rightarrow> rat) \<Rightarrow> nat \<Rightarrow> dexp" where
  "backoff rnd k = DPlus (DTimes (DNum 1000) (DPow2 k)) (DTimes (DNum (rnd k)) (DNum 500))"

fun exact :: "dexp \<Rightarrow> rat" where
  "exact (DNum x) = x"
| "exact (DPow2 n) = 2 ^ n"
| "exact (DTimes a b) = exact a * exact b"
| "exact (DPlus a b) = exact a + exact b"








fun dateReadable :: "jsval \<Rightarrow> bool" where
  "dateReadable None = True"
| "dateReadable (Some v) = (\<not> conversionThrows v)"



text \<open>
  The message of the error \<^verbatim>\<open>callAPI\<close> throws for a key that does not split into two
  parts at the dot: its own for a blank key and for a key without a dot, that of
  \<^verbatim>\<open>generateToken\<close> otherwise.
\<close>

definition keyError :: "jsstring \<Rightarrow> jsstring" where
  "keyError key =
     (if length (trim key) = 0 then msgKeyUnset
      else if \<not> includes_str key (js ''.'') then msgKeyFormat
      else msgTokenFormat)"

text \<open>
  A run that ended at the first attempt, before any request: the operation returned
  \<^verbatim>\<open>AI_REQUEST_FAILED\<close> with technical message \<open>m\<close>, \<^verbatim>\<open>fn\<close> was called once, no delay was
  set and the network is in the state \<open>s\<close> it was in.
\<close>

definition failsBeforeRequest :: "string \<Rightarrow> jsstring \<Rightarrow> 's \<Rightarrow> ('a, 's) OpRun \<Rightarrow> bool" where
  "failsBeforeRequest ctxName m s run \<longleftrightarrow>
     opOutcome run =
       Returned (err (createError ''AI_REQUEST_FAILED'' NETWORK CRITICAL msgRequestFailed m
                        [(''attempts'', CtxNum 1), (''context'', CtxStr (js ctxName))]))
     \<and> opCalls run = 1 \<and> opDelays run = [] \<and> opTransport run = s"

text \<open>
  The patterns of steps 1 and 3 of \<^verbatim>\<open>fixIncompleteJSON\<close> as predicates: some comma is
  followed by white space and a closing brace or bracket; some comma starts a match of
  \<^verbatim>\<open>/,\s*"[^"]*:\s*[^,}\]]*$/\<close>.
\<close>

fun trailingComma :: "jsstring \<Rightarrow> bool" where
  "trailingComma [] = False"
| "trailingComma (c # cs) = ((c = 44 \<and> closerFollows cs) \<or> trailingComma cs)"

fun incompleteProperty :: "jsstring \<Rightarrow> bool" where
  "incompleteProperty [] = False"
| "incompleteProperty (c # cs) = ((c = 44 \<and> propertyTail cs) \<or> incompleteProperty cs)"

text \<open>
  Observations on the lexer and the parser, used to relate the characters of a text to
  the tokens read from it: whether the lexer is inside a string literal (escape
  sequences included), whether it has just read the backslash of an escape, and whether
  a token closes a container.
\<close>

fun literalMode :: "lexmode \<Rightarrow> bool" where
  "literalMode LStart = False"
| "literalMode (LWord w) = False"
| "literalMode m = True"

fun escapeMode :: "lexmode \<Rightarrow> bool" where
  "escapeMode (LEscape s) = True"
| "escapeMode m = False"

fun isCloser :: "token \<Rightarrow> bool" where
  "isCloser TRBrace = True"
| "isCloser TRBracket = True"
| "isCloser t = False"

section \<open>Example inputs\<close>

text \<open>
  A configuration with a well-formed key and every optional field absent, the service
  built from it and initialized, the same with a key that has no dot, and an
  environment.
\<close>

definition exampleConfig :: GLMConfig where
  "exampleConfig =
     \<lparr>apiKey = js ''id.secret'', model = [], temperature = 0, topP = 0, maxTokens = 0,
      timeout = 0, maxRetries = 0, maxRequestsPerMinute = 0, proxy = []\<rparr>"

definition exampleService :: GLMService where
  "exampleService = snd (initialize (newGLMService exampleConfig))"

definition dotlessService :: GLMService where
  "dotlessService = snd (initialize (newGLMService (exampleConfig\<lparr>apiKey := js ''abc''\<rparr>)))"

definition exampleEnv :: Env where
  "exampleEnv =
     \<lparr>envNow = 0, envLate = 0, envRandom = (\<lambda>k. 0), envIdTime = 0,
      envParseError = (\<lambda>text. js ''Unexpected token'')\<rparr>"

text \<open>
  Networks and transports whose state counts the calls they received: one that always
  answers \<open>content\<close>; one that fails twice with \<^verbatim>\<open>ECONNRESET\<close> and then answers; one that
  always answers with status 401.
\<close>

definition answering :: "jsstring \<Rightarrow> jsstring \<times> jsstring \<Rightarrow> nat \<Rightarrow> jsstring completion \<times> nat" where
  "answering content token n = (Resolved content, Suc n)"

definition flaky :: "jsstring \<Rightarrow> nat \<Rightarrow> jsstring completion \<times> nat" where
  "flaky content n =
     (if n < 2 then Rejected (JSError (js ''read ECONNRESET'') (Some (js ''ECONNRESET'')))
      else Resolved content,
      Suc n)"

definition denied :: "nat \<Rightarrow> jsstring completion \<times> nat" where
  "denied n = (Rejected (statusError 401 (js ''Unauthorized'')), Suc n)"

text \<open>
  A service configured with a timeout of 40 seconds, and a network that never answers:
  every request ends in the \<^verbatim>\<open>timeout\<close> handler of \<^verbatim>\<open>callAPI\<close>.
\<close>

definition slowService :: GLMService where
  "slowService = snd (initialize (newGLMService (exampleConfig\<lparr>timeout := 40000\<rparr>)))"

definition silent :: "nat \<Rightarrow> jsstring \<times> jsstring \<Rightarrow> nat \<Rightarrow> jsstring completion \<times> nat" where
  "silent ms token n = (Rejected (timeoutError ms), Suc n)"

declare retryLoop.simps [simp del]

declare showNat.simps [simp del]

section \<open>Properties of the rate limiter\<close>

lemma length_filter_mono:
  "(\<And>x. x \<in> set xs \<Longrightarrow> P x \<Longrightarrow> Q x) \<Longrightarrow> length (filter P xs) \<le> length (filter Q xs)"
  by (induction xs) auto

lemma recent_le_max:
  assumes inv: "limiterInv clock rl adm" and now: "clock \<le> now"
  shows "recentRequests now rl = filter (\<lambda>a. now - windowMs (rlConfig rl) < a) adm"
    and "length (recentRequests now rl) \<le> maxRequests (rlConfig rl)"
proof -
  let ?W = "windowMs (rlConfig rl)"
  from inv now have eq: "filter (\<lambda>a. now - ?W < a) adm = filter (\<lambda>a. now - ?W < a) (requests rl)"
    unfolding limiterInv_def by simp
  then show r: "recentRequests now rl = filter (\<lambda>a. now - ?W < a) adm"
    by (simp add: recentRequests_def)
  from inv now have le: "\<forall>a \<in> set adm. a \<le> now"
    unfolding limiterInv_def by fastforce
  then have "filter (\<lambda>a. now - ?W < a) adm = filter (\<lambda>a. now - ?W < a \<and> a \<le> now) adm"
    by (intro filter_cong) auto
  then have "length (recentRequests now rl) = admittedWithin ?W now adm"
    by (simp add: r admittedWithin_def)
  with inv show "length (recentRequests now rl) \<le> maxRequests (rlConfig rl)"
    unfolding limiterInv_def by simp
qed

lemma sleepTime_nonneg: "0 \<le> sleepTime now rl"
  by (simp add: sleepTime_def Let_def split: list.splits)

lemma sleepTime_full:
  assumes "maxRequests (rlConfig rl) \<le> length (recentRequests now rl)"
    and "recentRequests now rl = oldest # rest"
  shows "sleepTime now rl = oldest + windowMs (rlConfig rl) - now" and "0 < sleepTime now rl"
proof -
  have "oldest \<in> set (recentRequests now rl)" using assms(2) by simp
  then have "now - windowMs (rlConfig rl) < oldest"
    by (simp add: recentRequests_def Let_def)
  then show "sleepTime now rl = oldest + windowMs (rlConfig rl) - now" "0 < sleepTime now rl"
    using assms by (simp_all add: sleepTime_def Let_def)
qed

lemma recent_above_stamp:
  assumes pos: "0 < maxRequests (rlConfig rl)"
    and le: "length (recentRequests now rl) \<le> maxRequests (rlConfig rl)"
  shows "Suc (length (filter (\<lambda>a. now + sleepTime now rl + int late - windowMs (rlConfig rl) < a)
            (recentRequests now rl))) \<le> maxRequests (rlConfig rl)"
proof (cases "maxRequests (rlConfig rl) \<le> length (recentRequests now rl)")
  case False
  have "length (filter (\<lambda>a. now + sleepTime now rl + int late - windowMs (rlConfig rl) < a)
            (recentRequests now rl)) \<le> length (recentRequests now rl)"
    by simp
  with False show ?thesis by linarith
next
  case True
  with pos obtain oldest rest where r: "recentRequests now rl = oldest # rest"
    by (cases "recentRequests now rl") auto
  from sleepTime_full[OF True r]
  have s: "sleepTime now rl = oldest + windowMs (rlConfig rl) - now" by simp
  have "\<not> (now + sleepTime now rl + int late - windowMs (rlConfig rl) < oldest)"
    by (simp add: s)
  then have "length (filter (\<lambda>a. now + sleepTime now rl + int late - windowMs (rlConfig rl) < a)
            (recentRequests now rl)) \<le> length rest"
    by (simp add: r)
  with le r show ?thesis by simp
qed

lemma waitForSlot_inv:
  assumes inv: "limiterInv clock rl adm" and now: "clock \<le> now"
    and pos: "0 < maxRequests (rlConfig rl)"
    and w: "waitForSlot now late rl = (stamp, rl')"
  shows "limiterInv stamp rl' (adm @ [stamp])" and "rlConfig rl' = rlConfig rl"
proof -
  let ?W = "windowMs (rlConfig rl)" and ?N = "maxRequests (rlConfig rl)"
  let ?reqs = "recentRequests now rl"
  from w have stamp: "stamp = now + sleepTime now rl + int late"
    and rl': "rl' = rl\<lparr>requests := ?reqs @ [stamp]\<rparr>"
    by (auto simp: waitForSlot_def Let_def)
  from rl' show cfg: "rlConfig rl' = rlConfig rl" by simp
  have ge: "now \<le> stamp" using sleepTime_nonneg[of now rl] stamp by simp
  from inv have admle: "\<forall>a \<in> set adm. a \<le> clock" 
    and agree: "\<And>c. clock - ?W \<le> c \<Longrightarrow> filter (\<lambda>a. c < a) adm = filter (\<lambda>a. c < a) (requests rl)"
    and bound: "\<And>t. admittedWithin ?W t adm \<le> ?N"
    unfolding limiterInv_def by auto
  note rec = recent_le_max[OF inv now]
  have a: "\<forall>a \<in> set (adm @ [stamp]). a \<le> stamp"
    using admle now ge by fastforce
  have b: "filter (\<lambda>a. c < a) (adm @ [stamp]) = filter (\<lambda>a. c < a) (requests rl')"
    if c: "stamp - ?W \<le> c" for c
  proof -
    have c1: "clock - ?W \<le> c" and c2: "now - ?W \<le> c" using c ge now by auto
    have "filter (\<lambda>a. c < a) ?reqs = filter (\<lambda>a. c < a) (requests rl)"
      unfolding recentRequests_def Let_def filter_filter
      using c2 by (intro filter_cong) auto
    then show ?thesis using agree[OF c1] by (simp add: rl')
  qed
  have c: "admittedWithin ?W t (adm @ [stamp]) \<le> ?N" for t
  proof (cases "stamp \<le> t")
    case False
    then have "admittedWithin ?W t (adm @ [stamp]) = admittedWithin ?W t adm"
      by (simp add: admittedWithin_def)
    then show ?thesis using bound by simp
  next
    case True
    have "admittedWithin ?W t (adm @ [stamp]) \<le> Suc (length (filter (\<lambda>a. t - ?W < a \<and> a \<le> t) adm))"
      by (simp add: admittedWithin_def)
    also have "length (filter (\<lambda>a. t - ?W < a \<and> a \<le> t) adm) \<le> length (filter (\<lambda>a. stamp - ?W < a) adm)"
      using True by (intro length_filter_mono) auto
    also have "filter (\<lambda>a. stamp - ?W < a) adm = filter (\<lambda>a. stamp - ?W < a) ?reqs"
    proof -
      have "filter (\<lambda>a. stamp - ?W < a) ?reqs = filter (\<lambda>a. stamp - ?W < a) (requests rl)"
        unfolding recentRequests_def Let_def filter_filter
        using ge by (intro filter_cong) auto
      moreover have "clock - ?W \<le> stamp - ?W" using ge now by simp
      ultimately show ?thesis using agree by simp
    qed
    also have "Suc (length (filter (\<lambda>a. stamp - ?W < a) ?reqs)) \<le> ?N"
      using recent_above_stamp[OF pos rec(2), of late] by (simp add: stamp)
    finally show ?thesis by simp
  qed
  show "limiterInv stamp rl' (adm @ [stamp])"
    unfolding limiterInv_def cfg using a b c by blast
qed

lemma admissions_inv:
  assumes "limiterInv clock rl adm" and "0 < maxRequests (rlConfig rl)"
  shows "admittedWithin (windowMs (rlConfig rl)) t (adm @ admissions clock rl calls)
           \<le> maxRequests (rlConfig rl)"
  using assms
proof (induction calls arbitrary: clock rl adm)
  case Nil
  then show ?case by (simp add: limiterInv_def)
next
  case (Cons call calls)
  obtain gap late where call: "call = (gap, late)" by (cases call)
  obtain stamp rl' where w: "waitForSlot (clock + int gap) late rl = (stamp, rl')"
    by (cases "waitForSlot (clock + int gap) late rl")
  have "clock \<le> clock + int gap" by simp
  from waitForSlot_inv[OF Cons.prems(1) this Cons.prems(2) w]
  have inv': "limiterInv stamp rl' (adm @ [stamp])" and cfg: "rlConfig rl' = rlConfig rl" by auto
  from Cons.IH[OF inv'] Cons.prems(2) cfg
  have "admittedWithin (windowMs (rlConfig rl)) t ((adm @ [stamp]) @ admissions stamp rl' calls)
           \<le> maxRequests (rlConfig rl)" by simp
  then show ?case by (simp add: call w)
qed

lemma length_admissions: "length (admissions clock rl calls) = length calls"
  by (induction calls arbitrary: clock rl) (auto simp: Let_def split: prod.splits)

text \<open>
  Claim C1. For every sequence of sequential calls to \<^verbatim>\<open>waitForSlot\<close> on a fresh limiter
  with \<^verbatim>\<open>maxRequests = N > 0\<close>: every call records a timestamp (none is rejected); at
  most \<open>N\<close> recorded timestamps fall in any trailing window \<open>(t - windowMs, t]\<close> (the
  window the source's filter \<^verbatim>\<open>time > now - windowMs\<close> keeps); and a call that finds \<open>N\<close>
  or more timestamps in its window sets a timer of \<open>oldest + windowMs - now\<close> milliseconds,
  a positive delay, and records its timestamp when the timer has fired.
\<close>

theorem rate_limiter_window:
  assumes pos: "0 < maxRequests cfg"
  shows "length (admissions clock (newRateLimiter cfg) calls) = length calls
       \<and> (\<forall>t. admittedWithin (windowMs cfg) t (admissions clock (newRateLimiter cfg) calls)
              \<le> maxRequests cfg)
       \<and> (\<forall>now late rl oldest rest.
             rlConfig rl = cfg \<and> recentRequests now rl = oldest # rest
               \<and> maxRequests cfg \<le> length (oldest # rest)
             \<longrightarrow> sleepTime now rl = oldest + windowMs cfg - now
               \<and> 0 < sleepTime now rl
               \<and> waitForSlot now late rl =
                   (oldest + windowMs cfg + int late,
                    rl\<lparr>requests := (oldest # rest) @ [oldest + windowMs cfg + int late]\<rparr>))"
proof (intro conjI allI impI)
  show "length (admissions clock (newRateLimiter cfg) calls) = length calls"
    by (rule length_admissions)
next
  fix t
  have inv: "limiterInv clock (newRateLimiter cfg) []"
    by (simp add: limiterInv_def newRateLimiter_def admittedWithin_def)
  have "0 < maxRequests (rlConfig (newRateLimiter cfg))"
    using pos by (simp add: newRateLimiter_def)
  from admissions_inv[OF inv this, of t calls]
  show "admittedWithin (windowMs cfg) t (admissions clock (newRateLimiter cfg) calls)
          \<le> maxRequests cfg"
    by (simp add: newRateLimiter_def)
next
  fix now late rl oldest rest
  assume h: "rlConfig rl = cfg \<and> recentRequests now rl = oldest # rest
               \<and> maxRequests cfg \<le> length (oldest # rest)"
  then have full: "maxRequests (rlConfig rl) \<le> length (recentRequests now rl)"
    and r: "recentRequests now rl = oldest # rest" by simp_all
  from sleepTime_full[OF full r] h
  show s: "sleepTime now rl = oldest + windowMs cfg - now" and "0 < sleepTime now rl"
    by simp_all
  show "waitForSlot now late rl =
          (oldest + windowMs cfg + int late,
           rl\<lparr>requests := (oldest # rest) @ [oldest + windowMs cfg + int late]\<rparr>)"
    by (simp add: waitForSlot_def Let_def r s)
qed

theorem rate_limiter_window_witness:
  "0 < maxRequests \<lparr>maxRequests = 2, windowMs = 60000\<rparr>
   \<and> admissions 1000 (newRateLimiter \<lparr>maxRequests = 2, windowMs = 60000\<rparr>)
        [(0, 0), (5, 0), (10, 0)] = [1000, 1005, 61000]
   \<and> admittedWithin 60000 61000 [1000, 1005, 61000] \<le> 2
   \<and> recentRequests 1015 \<lparr>requests = [1000, 1005],
         rlConfig = \<lparr>maxRequests = 2, windowMs = 60000\<rparr>\<rparr> = [1000, 1005]
   \<and> sleepTime 1015 \<lparr>requests = [1000, 1005],
         rlConfig = \<lparr>maxRequests = 2, windowMs = 60000\<rparr>\<rparr> = 59985"
  using rate_limiter_window [of "\<lparr>maxRequests = 2, windowMs = 60000\<rparr>" 1000
      "[(0, 0), (5, 0), (10, 0)]"]
  by (simp add: newRateLimiter_def waitForSlot_def sleepTime_def recentRequests_def
      admittedWithin_def Let_def)

section \<open>Evaluation of strings and of the parser\<close>

lemmas json_eval =
  JSON_parse_def js_def startStep_def isJSONSpace_def wordChar_def isDigit_def
  classifyWord_def parseNumber_def fracPart_def expPart_def digitsVal_def unescape_def hexDigit_def

lemmas fix_eval =
  fixIncompleteJSON_def closeString_def countChar_def closerFollows_def propertyTail_def
  isWhiteSpace_def Let_def

lemmas extract_eval = extractJSONText_def objectSpan_def js_def isWhiteSpace_def

lemmas msg_eval = msgKeyUnset_def msgKeyFormat_def msgTokenFormat_def js_def

lemma js_eq_iff [simp]: "js a = js b \<longleftrightarrow> a = b"
proof -
  have "inj (of_char :: char \<Rightarrow> nat)"
    by (rule injI) simp
  then have "inj (map (of_char :: char \<Rightarrow> nat))" by simp
  then show ?thesis unfolding js_def by (auto dest: injD)
qed

lemma js_Nil_iff [simp]: "js a = [] \<longleftrightarrow> a = []"
  by (simp add: js_def)

lemma startsWith_append: "startsWith (p @ r) p"
  by (induction p) auto

lemma includes_str_prefix: "startsWith s p \<Longrightarrow> includes_str s p"
  by (cases s) (auto elim: startsWith.elims)

lemma includes_str_append_right: "includes_str (p @ r) p"
  by (rule includes_str_prefix) (rule startsWith_append)

lemma includes_str_append_left: "includes_str s p \<Longrightarrow> includes_str (q @ s) p"
  by (induction q) auto

lemma includes_str_middle: "includes_str (q @ p @ r) p"
  by (rule includes_str_append_left) (rule includes_str_append_right)

lemma showNat_401: "showNat 401 = js ''401''"
  by (simp add: showNat.simps js_def)

lemma showNat_403: "showNat 403 = js ''403''"
  by (simp add: showNat.simps js_def)

lemma statusError_401: "includes_str (message (statusError 401 body)) (js ''401'')"
  unfolding statusError_def jserror.sel showNat_401 by (rule includes_str_middle)

lemma statusError_403: "includes_str (message (statusError 403 body)) (js ''403'')"
  unfolding statusError_def jserror.sel showNat_403 by (rule includes_str_middle)

section \<open>Properties of the repair and of the parser\<close>

lemma fix_truncated_array: \<open>fixIncompleteJSON (js ''{"a": 1, "b": [1, 2,'') = js ''{"a": 1, "b": [1, 2,]}''\<close>
  by (simp add: fix_eval js_def)

lemma parse_repaired_truncated_array: \<open>JSON_parse (js ''{"a": 1, "b": [1, 2,]}'') = None\<close>
  by (simp add: json_eval)

lemma parse_truncated_array: \<open>JSON_parse (js ''{"a": 1, "b": [1, 2,'') = None\<close>
  by (simp add: json_eval)

lemma extract_truncated_array: \<open>extractJSONText (js ''{"a": 1, "b": [1, 2,'') = js ''{"a": 1, "b": [1, 2,''\<close>
  by (simp add: extractJSONText_def objectSpan_def js_def isWhiteSpace_def)

text \<open>
  Claim C2. The spec expects the truncated text \<^verbatim>\<open>{"a": 1, "b": [1, 2,\<close> to be repaired
  into valid JSON and the operation to return \<^verbatim>\<open>Ok\<close>. On the code the pass removes
  trailing commas before it appends the missing closers: the repaired text is
  \<^verbatim>\<open>{"a": 1, "b": [1, 2,]}\<close>, which \<^verbatim>\<open>JSON.parse\<close> rejects, and \<^verbatim>\<open>parseJSONResponse\<close> returns
  \<^verbatim>\<open>AI_PARSE_FAILED\<close>.
\<close>

theorem truncated_array_not_repaired:
  \<open>fixIncompleteJSON (js ''{"a": 1, "b": [1, 2,'') = js ''{"a": 1, "b": [1, 2,]}''
   \<and> JSON_parse (js ''{"a": 1, "b": [1, 2,]}'') = None
   \<and> parseJSONResponse pe (js ''{"a": 1, "b": [1, 2,'') =
       err (createError ''AI_PARSE_FAILED'' DOMAIN CRITICAL msgParseFailed
              (pe (js ''{"a": 1, "b": [1, 2,]}''))
              [(''response'', CtxStr (js ''{"a": 1, "b": [1, 2,''))])\<close>
  unfolding parseJSONResponse_def extract_truncated_array Let_def tryParse_def
    fix_truncated_array parse_repaired_truncated_array parse_truncated_array
  by (simp add: js_def)

lemma parse_direct:
  "tryParse (extractJSONText response) = Some data \<Longrightarrow> parseJSONResponse pe response = ok data"
  by (simp add: parseJSONResponse_def Let_def)




subsection \<open>Valid texts and the repair\<close>

text \<open>
  No text that \<^verbatim>\<open>JSON.parse\<close> accepts holds a match of the pattern of step 3: the comma
  of a match or the colon behind it would be a token with no closing brace or bracket
  after it, while the grammar reads a comma or a colon only inside a container. So on a
  valid text only steps 1, 2 and 4 can act, and each of them changes the text whenever
  it acts.
\<close>

lemma startStep_cases:
  assumes "startStep acc c = Some (m', acc')"
  shows "(isJSONSpace c \<and> m' = LStart \<and> acc' = acc)
       \<or> (c = 34 \<and> m' = LString [] \<and> acc' = acc)
       \<or> (c = 123 \<and> m' = LStart \<and> acc' = TLBrace # acc)
       \<or> (c = 125 \<and> m' = LStart \<and> acc' = TRBrace # acc)
       \<or> (c = 91 \<and> m' = LStart \<and> acc' = TLBracket # acc)
       \<or> (c = 93 \<and> m' = LStart \<and> acc' = TRBracket # acc)
       \<or> (c = 58 \<and> m' = LStart \<and> acc' = TColon # acc)
       \<or> (c = 44 \<and> m' = LStart \<and> acc' = TComma # acc)
       \<or> (wordChar c \<and> (\<exists>w. m' = LWord w) \<and> acc' = acc)"
  using assms by (auto simp: startStep_def isJSONSpace_def split: if_splits)

text \<open>The grammar: a comma or a colon is read only inside a container, which a later token must close.\<close>

lemma pushValue_depth: "pushValue v st = Some (e', st') \<Longrightarrow> length st' = length st"
  by (cases "(v, st)" rule: pushValue.cases) auto

lemma parseStep_depth:
  assumes "parseStep e st tok = Some (e', st')" and "\<not> isCloser tok"
  shows "length st \<le> length st'"
  using assms
  by (cases e; cases tok)
     (auto dest: pushValue_depth elim!: setKey.elims
           split: if_splits list.splits container.splits option.splits)

lemma open_container_needs_closer:
  assumes "parseTokens e st toks = Some v" and "st \<noteq> []"
  shows "list_ex isCloser toks"
  using assms
proof (induction toks arbitrary: e st)
  case Nil
  then show ?case by (cases e) (auto split: if_splits)
next
  case (Cons tok toks)
  then obtain e' st' where step: "parseStep e st tok = Some (e', st')"
    and rest: "parseTokens e' st' toks = Some v"
    by (auto split: option.splits)
  show ?case
  proof (cases "isCloser tok")
    case True
    then show ?thesis by simp
  next
    case False
    from parseStep_depth[OF step False] Cons.prems(2) have "st' \<noteq> []" by auto
    from Cons.IH[OF rest this] show ?thesis by simp
  qed
qed

lemma pushValue_expect: "pushValue v st = Some (e', st') \<Longrightarrow> e' \<noteq> ExpColon"
  by (cases "(v, st)" rule: pushValue.cases) auto

lemma colon_state: "parseStep e st tok = Some (ExpColon, st') \<Longrightarrow> st' \<noteq> []"
  by (cases e; cases tok)
     (auto dest: pushValue_expect pushValue_expect[OF sym]
           elim!: setKey.elims closeArray.elims closeObject.elims
           split: if_splits list.splits container.splits option.splits)

lemma separator_needs_closer:
  assumes "parseTokens e st (pre @ tok # later) = Some v" and "tok = TComma \<or> tok = TColon"
    and "e = ExpColon \<longrightarrow> st \<noteq> []"
  shows "list_ex isCloser later"
  using assms
proof (induction pre arbitrary: e st)
  case Nil
  then obtain e' st' where step: "parseStep e st tok = Some (e', st')"
    and rest: "parseTokens e' st' later = Some v"
    by (auto split: option.splits)
  from step Nil.prems(2,3) have "st' \<noteq> []"
    by (cases e) (auto split: list.splits container.splits if_splits)
  from open_container_needs_closer[OF rest this] show ?case .
next
  case (Cons p pre)
  then obtain e' st' where step: "parseStep e st p = Some (e', st')"
    and rest: "parseTokens e' st' (pre @ tok # later) = Some v"
    by (auto split: option.splits)
  from colon_state step have "e' = ExpColon \<longrightarrow> st' \<noteq> []" by blast
  from Cons.IH[OF rest Cons.prems(2) this] show ?case .
qed

text \<open>The lexer: how one character changes its mode and what tokens it adds.\<close>

lemma lexStep_new:
  assumes "lexStep m acc c = Some (m', acc')"
  shows "\<exists>new. acc' = new @ acc \<and> (literalMode m \<or> (c \<noteq> 125 \<and> c \<noteq> 93) \<longrightarrow> \<not> list_ex isCloser new)"
  using assms
  by (cases m) (auto dest!: startStep_cases split: if_splits option.splits)

lemma lexStep_mode:
  assumes "lexStep m acc c = Some (m', acc')" and "c \<noteq> 34"
  shows "literalMode m' = literalMode m"
  using assms
  by (cases m) (auto dest!: startStep_cases split: if_splits option.splits)

lemma lexStep_quote:
  assumes "lexStep m acc 34 = Some (m', acc')"
  shows "literalMode m' = (\<not> literalMode m \<or> escapeMode m)"
  using assms
  by (cases m)
     (auto dest!: startStep_cases simp: hexDigit_def isDigit_def isJSONSpace_def wordChar_def
           split: if_splits option.splits)

lemma lexStep_escape:
  assumes "lexStep m acc c = Some (m', acc')" and "escapeMode m'"
  shows "c = 92"
  using assms
  by (cases m) (auto dest!: startStep_cases split: if_splits option.splits)

lemma lexStep_separator:
  assumes "\<not> literalMode m"
  shows "lexStep m acc 44 = Some (m', acc') \<Longrightarrow> \<exists>pre. acc' = TComma # pre @ acc"
    and "lexStep m acc 58 = Some (m', acc') \<Longrightarrow> \<exists>pre. acc' = TColon # pre @ acc"
  using assms
  by (cases m; simp add: startStep_def isJSONSpace_def wordChar_def isDigit_def
        split: option.splits if_splits; force)+

lemma lexAll_end:
  assumes "lexAll m acc [] = Some toks"
  shows "\<not> literalMode m \<and> (\<exists>later. toks = rev acc @ later \<and> \<not> list_ex isCloser later)"
  using assms by (cases m) auto

lemma lexAll_extends:
  assumes "lexAll m acc s = Some toks" and "125 \<notin> set s" and "93 \<notin> set s"
  shows "\<exists>later. toks = rev acc @ later \<and> \<not> list_ex isCloser later"
  using assms
proof (induction s arbitrary: m acc)
  case Nil
  then show ?case using lexAll_end by blast
next
  case (Cons c cs)
  then obtain m' acc' where step: "lexStep m acc c = Some (m', acc')"
    and rest: "lexAll m' acc' cs = Some toks"
    by (auto split: option.splits)
  from Cons.prems have c: "c \<noteq> 125 \<and> c \<noteq> 93" and cs: "125 \<notin> set cs" "93 \<notin> set cs" by auto
  from lexStep_new[OF step] c obtain new where new: "acc' = new @ acc" "\<not> list_ex isCloser new"
    by auto
  from Cons.IH[OF rest cs] obtain later where later: "toks = rev acc' @ later" "\<not> list_ex isCloser later"
    by auto
  have "toks = rev acc @ (rev new @ later)" by (simp add: later new)
  moreover have "\<not> list_ex isCloser (rev new @ later)"
    using new later by (auto simp: list_ex_iff)
  ultimately show ?case by blast
qed

text \<open>
  A match of \<open>keyTail\<close> read by the lexer. From inside a string literal the literal
  goes on beyond the colon, and no token up to the end closes a container; from outside
  the colon is a token, and no token behind it closes a container.
\<close>

lemma keyTail_literal:
  assumes "lexAll m acc r = Some toks" and "keyTail r" and "literalMode m"
  shows "\<exists>later. toks = rev acc @ later \<and> \<not> list_ex isCloser later"
  using assms
proof (induction r arbitrary: m acc)
  case Nil
  then show ?case by simp
next
  case (Cons c cs)
  then obtain m' acc' where step: "lexStep m acc c = Some (m', acc')"
    and rest: "lexAll m' acc' cs = Some toks"
    by (auto split: option.splits)
  from lexStep_new[OF step] Cons.prems(3) obtain new
    where new: "acc' = new @ acc" "\<not> list_ex isCloser new" by auto
  have "\<exists>later. toks = rev acc' @ later \<and> \<not> list_ex isCloser later"
  proof (cases "c = 58 \<and> list_all (\<lambda>d. d \<noteq> 44 \<and> d \<noteq> 125 \<and> d \<noteq> 93) cs")
    case True
    then have "125 \<notin> set cs" "93 \<notin> set cs" by (auto simp: list_all_iff)
    from lexAll_extends[OF rest this] show ?thesis .
  next
    case False
    with Cons.prems(2) have c: "c \<noteq> 34" and kt: "keyTail cs" by auto
    from lexStep_mode[OF step c] Cons.prems(3) have "literalMode m'" by simp
    from Cons.IH[OF rest kt this] show ?thesis .
  qed
  then obtain later where later: "toks = rev acc' @ later" "\<not> list_ex isCloser later" by auto
  have "toks = rev acc @ (rev new @ later)" by (simp add: later new)
  moreover have "\<not> list_ex isCloser (rev new @ later)"
    using new later by (auto simp: list_ex_iff)
  ultimately show ?case by blast
qed

lemma keyTail_outside:
  assumes "lexAll m acc r = Some toks" and "keyTail r" and "\<not> literalMode m"
  shows "\<exists>a b. toks = a @ TColon # b \<and> \<not> list_ex isCloser b"
  using assms
proof (induction r arbitrary: m acc)
  case Nil
  then show ?case by simp
next
  case (Cons c cs)
  then obtain m' acc' where step: "lexStep m acc c = Some (m', acc')"
    and rest: "lexAll m' acc' cs = Some toks"
    by (auto split: option.splits)
  show ?case
  proof (cases "c = 58 \<and> list_all (\<lambda>d. d \<noteq> 44 \<and> d \<noteq> 125 \<and> d \<noteq> 93) cs")
    case True
    then have "125 \<notin> set cs" "93 \<notin> set cs" by (auto simp: list_all_iff)
    from lexAll_extends[OF rest this] obtain later
      where later: "toks = rev acc' @ later" "\<not> list_ex isCloser later" by auto
    from True step have "lexStep m acc 58 = Some (m', acc')" by simp
    from lexStep_separator(2)[OF Cons.prems(3) this] obtain pre
      where "acc' = TColon # pre @ acc" by auto
    with later have "toks = (rev acc @ rev pre) @ TColon # later" by simp
    with later(2) show ?thesis by blast
  next
    case False
    with Cons.prems(2) have c: "c \<noteq> 34" and kt: "keyTail cs" by auto
    from lexStep_mode[OF step c] Cons.prems(3) have "\<not> literalMode m'" by simp
    from Cons.IH[OF rest kt this] show ?thesis .
  qed
qed

lemma propertyTail_Cons:
  "propertyTail (d # ds) = (if isWhiteSpace d then propertyTail ds else d = 34 \<and> keyTail ds)"
  by (simp add: propertyTail_def)

lemma whitespace_plain:
  assumes "isWhiteSpace d"
  shows "d \<noteq> 34" "d \<noteq> 92" "d \<noteq> 125" "d \<noteq> 93"
  using assms by (auto simp: isWhiteSpace_def)

lemma propertyTail_tokens:
  assumes "lexAll m acc cs = Some toks" and "propertyTail cs" and "\<not> escapeMode m"
  shows "(\<exists>a b. toks = a @ TColon # b \<and> \<not> list_ex isCloser b)
       \<or> (\<not> literalMode m \<and> (\<exists>later. toks = rev acc @ later \<and> \<not> list_ex isCloser later))"
  using assms
proof (induction cs arbitrary: m acc)
  case Nil
  then show ?case by (simp add: propertyTail_def)
next
  case (Cons d ds)
  then obtain m' acc' where step: "lexStep m acc d = Some (m', acc')"
    and rest: "lexAll m' acc' ds = Some toks"
    by (auto split: option.splits)
  show ?case
  proof (cases "isWhiteSpace d")
    case True
    note ws = whitespace_plain[OF True]
    from Cons.prems(2) True have pt: "propertyTail ds" by (simp add: propertyTail_Cons)
    from lexStep_escape[OF step] ws(2) have ne: "\<not> escapeMode m'" by blast
    from lexStep_mode[OF step ws(1)] have mode: "literalMode m' = literalMode m" .
    from lexStep_new[OF step] ws obtain new
      where new: "acc' = new @ acc" "\<not> list_ex isCloser new" by auto
    from Cons.IH[OF rest pt ne] show ?thesis
    proof
      assume "\<exists>a b. toks = a @ TColon # b \<and> \<not> list_ex isCloser b"
      then show ?thesis by blast
    next
      assume "\<not> literalMode m' \<and> (\<exists>later. toks = rev acc' @ later \<and> \<not> list_ex isCloser later)"
      then obtain later where l: "\<not> literalMode m'" "toks = rev acc' @ later"
        "\<not> list_ex isCloser later" by auto
      have "toks = rev acc @ (rev new @ later)" by (simp add: l new)
      moreover have "\<not> list_ex isCloser (rev new @ later)"
        using new l by (auto simp: list_ex_iff)
      ultimately show ?thesis using l(1) mode by blast
    qed
  next
    case False
    with Cons.prems(2) have d: "d = 34" and kt: "keyTail ds" by (simp_all add: propertyTail_Cons)
    show ?thesis
    proof (cases "literalMode m'")
      case False
      from keyTail_outside[OF rest kt False] show ?thesis by blast
    next
      case True
      with lexStep_quote[of m acc m' acc'] step d Cons.prems(3) have out: "\<not> literalMode m"
        by auto
      from lexStep_new[OF step] d obtain new
        where new: "acc' = new @ acc" "\<not> list_ex isCloser new" by auto
      from keyTail_literal[OF rest kt True] obtain later
        where l: "toks = rev acc' @ later" "\<not> list_ex isCloser later" by auto
      have "toks = rev acc @ (rev new @ later)" by (simp add: l new)
      moreover have "\<not> list_ex isCloser (rev new @ later)"
        using new l by (auto simp: list_ex_iff)
      ultimately show ?thesis using out by blast
    qed
  qed
qed

lemma incompleteProperty_tokens:
  assumes "lexAll m acc s = Some toks" and "incompleteProperty s"
  shows "\<exists>a tok b. toks = a @ tok # b \<and> (tok = TComma \<or> tok = TColon) \<and> \<not> list_ex isCloser b"
  using assms
proof (induction s arbitrary: m acc)
  case Nil
  then show ?case by simp
next
  case (Cons c cs)
  then obtain m' acc' where step: "lexStep m acc c = Some (m', acc')"
    and rest: "lexAll m' acc' cs = Some toks"
    by (auto split: option.splits)
  show ?case
  proof (cases "c = 44 \<and> propertyTail cs")
    case False
    with Cons.prems(2) have "incompleteProperty cs" by auto
    from Cons.IH[OF rest this] show ?thesis .
  next
    case True
    from lexStep_escape[OF step] True have ne: "\<not> escapeMode m'" by auto
    from True have pt: "propertyTail cs" by simp
    from propertyTail_tokens[OF rest pt ne] show ?thesis
    proof
      assume "\<exists>a b. toks = a @ TColon # b \<and> \<not> list_ex isCloser b"
      then show ?thesis by blast
    next
      assume "\<not> literalMode m' \<and> (\<exists>later. toks = rev acc' @ later \<and> \<not> list_ex isCloser later)"
      then obtain later where l: "\<not> literalMode m'" "toks = rev acc' @ later"
        "\<not> list_ex isCloser later" by auto
      from lexStep_mode[OF step] True l(1) have out: "\<not> literalMode m" by auto
      from True step have "lexStep m acc 44 = Some (m', acc')" by simp
      from lexStep_separator(1)[OF out this] obtain pre
        where "acc' = TComma # pre @ acc" by auto
      with l have "toks = (rev acc @ rev pre) @ TComma # later" by simp
      with l(3) show ?thesis by blast
    qed
  qed
qed

lemma valid_no_incomplete_property:
  assumes "JSON_parse s = Some v"
  shows "\<not> incompleteProperty s"
proof
  assume ip: "incompleteProperty s"
  from assms obtain toks where lex: "lexAll LStart [] s = Some toks"
    and parse: "parseTokens ExpValue [] toks = Some v"
    by (auto simp: JSON_parse_def split: option.splits)
  from incompleteProperty_tokens[OF lex ip] obtain a tok b
    where "toks = a @ tok # b" "tok = TComma \<or> tok = TColon" "\<not> list_ex isCloser b" by blast
  with separator_needs_closer[of ExpValue "[]" a tok b v] parse show False by simp
qed

lemma lexAll_quotes:
  assumes "lexAll m acc s = Some toks"
  shows "if literalMode m then 1 \<le> countChar 34 s else countChar 34 s \<noteq> 1"
  using assms
proof (induction s arbitrary: m acc)
  case Nil
  then show ?case using lexAll_end[of m acc toks] by (simp add: countChar_def)
next
  case (Cons c cs)
  then obtain m' acc' where step: "lexStep m acc c = Some (m', acc')"
    and rest: "lexAll m' acc' cs = Some toks"
    by (auto split: option.splits)
  note IH = Cons.IH[OF rest]
  show ?case
  proof (cases "c = 34")
    case True
    with lexStep_quote[of m acc m' acc'] step have "\<not> literalMode m \<longrightarrow> literalMode m'" by simp
    with IH True show ?thesis by (auto simp: countChar_def split: if_splits)
  next
    case False
    from lexStep_mode[OF step False] IH False show ?thesis
      by (auto simp: countChar_def split: if_splits)
  qed
qed

lemma valid_quotes:
  assumes "JSON_parse s = Some v"
  shows "countChar 34 s \<noteq> 1"
proof -
  from assms obtain toks where "lexAll LStart [] s = Some toks"
    by (auto simp: JSON_parse_def split: option.splits)
  from lexAll_quotes[OF this] show ?thesis by simp
qed

subsection \<open>What the repair does to the counts of characters\<close>

lemma countChar_Nil: "countChar c [] = 0"
  by (simp add: countChar_def)

lemma countChar_Cons: "countChar c (x # xs) = (if x = c then Suc (countChar c xs) else countChar c xs)"
  by (simp add: countChar_def)

lemma countChar_append: "countChar c (xs @ ys) = countChar c xs + countChar c ys"
  by (simp add: countChar_def)

lemma countChar_replicate: "countChar c (replicate n d) = (if d = c then n else 0)"
  by (induction n) (auto simp: countChar_Nil countChar_Cons)

lemma countChar_take: "countChar c (take n xs) \<le> countChar c xs"
proof -
  have "countChar c xs = countChar c (take n xs) + countChar c (drop n xs)"
    unfolding countChar_append[symmetric] by simp
  then show ?thesis by simp
qed

lemma removeTrailingCommas_commas:
  "countChar 44 (removeTrailingCommas s) \<le> countChar 44 s"
  by (induction s) (simp_all add: countChar_Nil countChar_Cons)

lemma removeTrailingCommas_fewer:
  "trailingComma s \<Longrightarrow> countChar 44 (removeTrailingCommas s) < countChar 44 s"
proof (induction s)
  case Nil
  then show ?case by simp
next
  case (Cons c cs)
  show ?case
  proof (cases "c = 44 \<and> closerFollows cs")
    case True
    with removeTrailingCommas_commas[of cs] show ?thesis by (simp add: countChar_Cons)
  next
    case False
    with Cons.prems have "trailingComma cs" by auto
    from Cons.IH[OF this] False show ?thesis by (auto simp: countChar_Cons)
  qed
qed

lemma stripIncompleteProperty_commas:
  "countChar 44 (stripIncompleteProperty s) \<le> countChar 44 s"
  by (induction s) (simp_all add: countChar_Nil countChar_Cons)

lemma stripIncompleteProperty_fewer:
  "incompleteProperty s \<Longrightarrow> countChar 44 (stripIncompleteProperty s) < countChar 44 s"
proof (induction s)
  case Nil
  then show ?case by simp
next
  case (Cons c cs)
  show ?case
  proof (cases "c = 44 \<and> propertyTail cs")
    case True
    then show ?thesis by (simp add: countChar_Nil countChar_Cons)
  next
    case False
    with Cons.prems have "incompleteProperty cs" by auto
    from Cons.IH[OF this] False show ?thesis by (auto simp: countChar_Cons)
  qed
qed

lemma lastIndexOf_None: "lastIndexOf c s = None \<longleftrightarrow> countChar c s = 0"
  by (induction s) (auto simp: countChar_Nil countChar_Cons split: option.splits)

lemma lastIndexOf_Some:
  assumes "lastIndexOf c s = Some i"
  shows "i < length s" and "countChar c (take (Suc i) s) = countChar c s"
    and "Suc (countChar c (take i s)) = countChar c s"
  using assms
proof (induction s arbitrary: i)
  case Nil
  {
    case 1 then show ?case by simp
  next
    case 2 then show ?case by simp
  next
    case 3 then show ?case by simp
  }
next
  case (Cons x xs)
  {
    case 1
    then show ?case using Cons.IH(1) by (auto split: option.splits if_splits)
  next
    case 2
    then show ?case using Cons.IH(2)
      by (auto simp: countChar_Nil countChar_Cons lastIndexOf_None split: option.splits if_splits)
  next
    case 3
    then show ?case using Cons.IH(3)
      by (auto simp: countChar_Nil countChar_Cons lastIndexOf_None split: option.splits if_splits)
  }
qed

lemma closeString_cases:
  "closeString s = s
   \<or> (countChar 34 (closeString s) = Suc (countChar 34 s)
      \<and> countChar 44 (closeString s) \<le> countChar 44 s)"
proof (cases "closeString s = s")
  case True
  then show ?thesis by simp
next
  case False
  then obtain i where i: "lastIndexOf 34 s = Some i" and cs: "closeString s = take (i + 1) s @ [34]"
    by (auto simp: closeString_def Let_def split: option.splits if_splits)
  from lastIndexOf_Some(2)[OF i] have "countChar 34 (closeString s) = Suc (countChar 34 s)"
    by (simp add: cs countChar_append countChar_Cons countChar_Nil)
  moreover have "countChar 44 (closeString s) \<le> countChar 44 s"
    using countChar_take[of 44 "i + 1" s]
    by (simp add: cs countChar_append countChar_Cons countChar_Nil)
  ultimately show ?thesis by simp
qed

lemma closeString_changes:
  assumes "odd (countChar 34 s)" and "countChar 34 s \<noteq> 1"
  shows "closeString s \<noteq> s"
proof -
  from assms(1) have "countChar 34 s \<noteq> 0" by (auto elim: oddE)
  then obtain i where i: "lastIndexOf 34 s = Some i"
    using lastIndexOf_None[of 34 s] by (cases "lastIndexOf 34 s") auto
  from lastIndexOf_Some(3)[OF i] assms have "countChar 34 (take i s) \<noteq> 0" by auto
  then obtain j where j: "lastIndexOf 34 (take i s) = Some j"
    using lastIndexOf_None[of 34 "take i s"] by (cases "lastIndexOf 34 (take i s)") auto
  from lastIndexOf_Some(1)[OF j] have "j < i" by simp
  moreover from assms(1) have "countChar 34 s mod 2 \<noteq> 0"
    by (simp add: odd_iff_mod_2_eq_one)
  ultimately have "closeString s = take (i + 1) s @ [34]"
    using i j by (simp add: closeString_def Let_def)
  with lastIndexOf_Some(2)[OF i] have "countChar 34 (closeString s) = Suc (countChar 34 s)"
    by (simp add: countChar_append countChar_Cons countChar_Nil)
  then show ?thesis by auto
qed

lemma removeTrailingCommas_id: "\<not> trailingComma s \<Longrightarrow> removeTrailingCommas s = s"
  by (induction s) auto

lemma stripIncompleteProperty_id: "\<not> incompleteProperty s \<Longrightarrow> stripIncompleteProperty s = s"
  by (induction s) auto

lemma closeString_id: "even (countChar 34 s) \<Longrightarrow> closeString s = s"
  by (simp add: closeString_def Let_def)

text \<open>The texts that \<^verbatim>\<open>fixIncompleteJSON\<close> returns as they are.\<close>

lemma fixIncompleteJSON_fixed_point:
  assumes "fixIncompleteJSON s = s"
  shows "\<not> trailingComma s \<and> closeString s = s \<and> \<not> incompleteProperty s
       \<and> countChar 91 s \<le> countChar 93 s \<and> countChar 123 s \<le> countChar 125 s"
proof -
  define s1 where "s1 = removeTrailingCommas s"
  define s2 where "s2 = closeString s1"
  define s3 where "s3 = stripIncompleteProperty s2"
  define a where "a = countChar 91 s3 - countChar 93 s3"
  define b where "b = countChar 123 s3 - countChar 125 s3"
  have "fixIncompleteJSON s = s3 @ replicate a 93 @ replicate b 125"
    by (simp add: fixIncompleteJSON_def Let_def s1_def s2_def s3_def a_def b_def)
  with assms have s: "s = s3 @ replicate a 93 @ replicate b 125" by simp
  have c3: "countChar 44 s = countChar 44 s3"
    by (subst s) (simp add: countChar_append countChar_replicate)
  have c32: "countChar 44 s3 \<le> countChar 44 s2"
    unfolding s3_def by (rule stripIncompleteProperty_commas)
  have c21: "countChar 44 s2 \<le> countChar 44 s1"
    unfolding s2_def using closeString_cases[of s1] by auto
  have c10: "countChar 44 s1 \<le> countChar 44 s"
    unfolding s1_def by (rule removeTrailingCommas_commas)
  have tc: "\<not> trailingComma s"
  proof
    assume "trailingComma s"
    from removeTrailingCommas_fewer[OF this] c3 c32 c21 show False by (simp add: s1_def)
  qed
  then have s1: "s1 = s" by (simp add: s1_def removeTrailingCommas_id)
  have ip: "\<not> incompleteProperty s2"
  proof
    assume "incompleteProperty s2"
    from stripIncompleteProperty_fewer[OF this] c3 c21 c10 show False by (simp add: s3_def)
  qed
  then have s3: "s3 = closeString s" by (simp add: s3_def s2_def s1 stripIncompleteProperty_id)
  have "countChar 34 s = countChar 34 (closeString s)"
    by (subst s) (simp add: countChar_append countChar_replicate s3)
  with closeString_cases[of s] have cs: "closeString s = s" by auto
  with s3 s have "replicate a 93 @ replicate b 125 = []" by simp
  then have "a = 0" "b = 0" by simp_all
  with cs s3 have "countChar 91 s \<le> countChar 93 s" "countChar 123 s \<le> countChar 125 s"
    by (simp_all add: a_def b_def)
  moreover from ip have "\<not> incompleteProperty s" by (simp add: s2_def s1 cs)
  ultimately show ?thesis using tc cs by simp
qed

lemma fixIncompleteJSON_unchanged:
  assumes "\<not> trailingComma s" and "even (countChar 34 s)" and "\<not> incompleteProperty s"
    and "countChar 91 s \<le> countChar 93 s" and "countChar 123 s \<le> countChar 125 s"
  shows "fixIncompleteJSON s = s"
  using assms
  by (simp add: fixIncompleteJSON_def Let_def removeTrailingCommas_id closeString_id
      stripIncompleteProperty_id)

text \<open>
  Claim C3, as amended. For every text that parses as valid JSON, \<^verbatim>\<open>fixIncompleteJSON\<close>
  returns the text itself, which parses to the same value, exactly when the text has no
  comma that white space and a closing brace or bracket follow, an even number of double
  quotes, no more opening than closing brackets and no more opening than closing braces.
\<close>

theorem repair_leaves_clean_text_unchanged:
  assumes "JSON_parse s = Some v"
  shows "(\<not> trailingComma s \<and> even (countChar 34 s)
            \<and> countChar 91 s \<le> countChar 93 s \<and> countChar 123 s \<le> countChar 125 s
          \<longrightarrow> fixIncompleteJSON s = s \<and> JSON_parse (fixIncompleteJSON s) = Some v)
       \<and> (fixIncompleteJSON s = s
          \<longrightarrow> \<not> trailingComma s \<and> even (countChar 34 s)
            \<and> countChar 91 s \<le> countChar 93 s \<and> countChar 123 s \<le> countChar 125 s)"
proof (intro conjI impI)
  assume h: "\<not> trailingComma s \<and> even (countChar 34 s)
            \<and> countChar 91 s \<le> countChar 93 s \<and> countChar 123 s \<le> countChar 125 s"
  with valid_no_incomplete_property[OF assms] show "fixIncompleteJSON s = s"
    by (intro fixIncompleteJSON_unchanged) simp_all
  with assms show "JSON_parse (fixIncompleteJSON s) = Some v" by simp
next
  assume "fixIncompleteJSON s = s"
  note fp = fixIncompleteJSON_fixed_point[OF this]
  from fp show "\<not> trailingComma s" by simp
  from fp show "countChar 91 s \<le> countChar 93 s" by simp
  from fp show "countChar 123 s \<le> countChar 125 s" by simp
  show "even (countChar 34 s)"
  proof (rule ccontr)
    assume "odd (countChar 34 s)"
    from closeString_changes[OF this valid_quotes[OF assms]] fp show False by simp
  qed
qed

lemma criteria_text_valid:
  \<open>JSON_parse (js ''{"inclusionCriteria":[{"number":"1","description":"Age 18-65, inclusive"}]}'')
   = Some (JObj [(js ''inclusionCriteria'',
        JArr [JObj [(js ''number'', JStr (js ''1'')),
                    (js ''description'', JStr (js ''Age 18-65, inclusive''))]])])\<close>
  by (simp add: json_eval)

lemma criteria_text_conditions:
  \<open>\<not> trailingComma (js ''{"inclusionCriteria":[{"number":"1","description":"Age 18-65, inclusive"}]}'')
   \<and> even (countChar 34 (js ''{"inclusionCriteria":[{"number":"1","description":"Age 18-65, inclusive"}]}''))
   \<and> countChar 91 (js ''{"inclusionCriteria":[{"number":"1","description":"Age 18-65, inclusive"}]}'')
       \<le> countChar 93 (js ''{"inclusionCriteria":[{"number":"1","description":"Age 18-65, inclusive"}]}'')
   \<and> countChar 123 (js ''{"inclusionCriteria":[{"number":"1","description":"Age 18-65, inclusive"}]}'')
       \<le> countChar 125 (js ''{"inclusionCriteria":[{"number":"1","description":"Age 18-65, inclusive"}]}'')\<close>
  by (simp add: js_def countChar_def closerFollows_def isWhiteSpace_def)

theorem repair_leaves_clean_text_unchanged_witness:
  \<open>JSON_parse (js ''{"inclusionCriteria":[{"number":"1","description":"Age 18-65, inclusive"}]}'')
     = Some (JObj [(js ''inclusionCriteria'',
          JArr [JObj [(js ''number'', JStr (js ''1'')),
                      (js ''description'', JStr (js ''Age 18-65, inclusive''))]])])
   \<and> \<not> trailingComma (js ''{"inclusionCriteria":[{"number":"1","description":"Age 18-65, inclusive"}]}'')
   \<and> even (countChar 34 (js ''{"inclusionCriteria":[{"number":"1","description":"Age 18-65, inclusive"}]}''))
   \<and> fixIncompleteJSON (js ''{"inclusionCriteria":[{"number":"1","description":"Age 18-65, inclusive"}]}'')
       = js ''{"inclusionCriteria":[{"number":"1","description":"Age 18-65, inclusive"}]}''
   \<and> JSON_parse (fixIncompleteJSON
         (js ''{"inclusionCriteria":[{"number":"1","description":"Age 18-65, inclusive"}]}''))
     = Some (JObj [(js ''inclusionCriteria'',
          JArr [JObj [(js ''number'', JStr (js ''1'')),
                      (js ''description'', JStr (js ''Age 18-65, inclusive''))]])])\<close>
  using repair_leaves_clean_text_unchanged
      [of \<open>js ''{"inclusionCriteria":[{"number":"1","description":"Age 18-65, inclusive"}]}''\<close>
          \<open>JObj [(js ''inclusionCriteria'',
             JArr [JObj [(js ''number'', JStr (js ''1'')),
                         (js ''description'', JStr (js ''Age 18-65, inclusive''))]])]\<close>]
    criteria_text_valid criteria_text_conditions
  by simp

text \<open>
  The claim as stated fails: \<^verbatim>\<open>{"a":",}"}\<close> is valid JSON with a comma before a closing
  brace inside a string literal, and the pass removes that comma, so the result parses
  to another value.
\<close>

theorem repair_changes_valid_json:
  \<open>JSON_parse (js ''{"a":",}"}'') = Some (JObj [(js ''a'', JStr (js '',}''))])
   \<and> fixIncompleteJSON (js ''{"a":",}"}'') = js ''{"a":"}"}''
   \<and> JSON_parse (fixIncompleteJSON (js ''{"a":",}"}'')) = Some (JObj [(js ''a'', JStr (js ''}''))])
   \<and> JSON_parse (fixIncompleteJSON (js ''{"a":",}"}'')) \<noteq> JSON_parse (js ''{"a":",}"}'')\<close>
  by (simp add: json_eval fix_eval)

text \<open>
  The other two conditions exclude texts that the pass breaks as well: an opening
  bracket inside a string literal, and an escaped quote that makes the number of quotes
  odd.
\<close>

lemma repair_breaks_unbalanced_literal:
  \<open>JSON_parse (js ''{"a":"["}'') = Some (JObj [(js ''a'', JStr (js ''[''))])
   \<and> fixIncompleteJSON (js ''{"a":"["}'') = js ''{"a":"["}]''
   \<and> JSON_parse (fixIncompleteJSON (js ''{"a":"["}'')) = None\<close>
  by (simp add: json_eval fix_eval)

lemma repair_breaks_escaped_quote:
  \<open>JSON_parse (js ''{"a":"'' @ [92, 34] @ js ''"}'') = Some (JObj [(js ''a'', JStr [34])])
   \<and> fixIncompleteJSON (js ''{"a":"'' @ [92, 34] @ js ''"}'') = js ''{"a":"'' @ [92, 34] @ js ''""}''
   \<and> JSON_parse (fixIncompleteJSON (js ''{"a":"'' @ [92, 34] @ js ''"}'')) = None\<close>
  by (simp add: json_eval fix_eval)

section \<open>Properties of the retry loop\<close>

lemma outcomeAt_0: "outcomeAt fn s 0 = fst (fn s)"
  by (simp add: outcomeAt_def)

lemma outcomeAt_Suc: "outcomeAt fn s (Suc j) = outcomeAt fn (snd (fn s)) j"
  by (simp add: outcomeAt_def)

lemma retryLoop_exhausted:
  "retryLoop maxR ctxName rnd fn maxR lastError delays s =
     \<lparr>rrResult = err (exhausted maxR ctxName lastError), rrCalls = maxR, rrDelays = delays,
      rrTransport = s\<rparr>"
  by (subst retryLoop.simps) simp

lemma retryLoop_resolved:
  "attempt < maxR \<Longrightarrow> fst (fn s) = Resolved r \<Longrightarrow>
   retryLoop maxR ctxName rnd fn attempt lastError delays s =
     \<lparr>rrResult = ok r, rrCalls = attempt + 1, rrDelays = delays, rrTransport = snd (fn s)\<rparr>"
  by (cases "fn s") (simp add: retryLoop.simps[of maxR ctxName rnd fn attempt])

lemma retryLoop_transient:
  "attempt < maxR \<Longrightarrow> fst (fn s) = Rejected e \<Longrightarrow> transient e \<Longrightarrow>
   retryLoop maxR ctxName rnd fn attempt lastError delays s =
     retryLoop maxR ctxName rnd fn (attempt + 1) (Some e)
       (if attempt < maxR - 1 then delays @ [backoff rnd attempt] else delays) (snd (fn s))"
  by (cases "fn s")
     (simp add: retryLoop.simps[of maxR ctxName rnd fn attempt] transient_def backoff_def Let_def)

lemma retryLoop_auth:
  assumes "attempt < maxR" and "fn s = (Rejected e, s')"
    and "includes_str (message e) (js ''401'') \<or> includes_str (message e) (js ''403'')"
  shows "retryLoop maxR ctxName rnd fn attempt lastError delays s =
           \<lparr>rrResult = err (createError ''AI_AUTH_FAILED'' NETWORK CRITICAL msgAuthFailed (message e)
                [(''attempt'', CtxNum attempt), (''context'', CtxStr (js ctxName))]),
            rrCalls = attempt + 1, rrDelays = delays, rrTransport = s'\<rparr>"
  using assms by (subst retryLoop.simps) simp

lemma retryLoop_not_retryable:
  assumes "attempt < maxR" and "fn s = (Rejected e, s')"
    and "\<not> includes_str (message e) (js ''401'')" "\<not> includes_str (message e) (js ''403'')"
    and "\<not> includes_str (message e) (js ''400'')" "\<not> isRetryableError e"
  shows "retryLoop maxR ctxName rnd fn attempt lastError delays s =
           \<lparr>rrResult = err (createError ''AI_REQUEST_FAILED'' NETWORK CRITICAL msgRequestFailed
                (message e)
                [(''attempts'', CtxNum (attempt + 1)), (''context'', CtxStr (js ctxName))]),
            rrCalls = attempt + 1, rrDelays = delays, rrTransport = s'\<rparr>"
  using assms by (simp add: retryLoop.simps[of maxR ctxName rnd fn attempt])

lemma code_exhausted: "code (exhausted maxR ctxName lastError) = ''AI_REQUEST_FAILED''"
  by (simp add: exhausted_def createError_def Let_def)

lemma retryLoop_run:
  assumes "attempt \<le> maxR"
    and "\<forall>j. j < k \<and> attempt + j < maxR \<longrightarrow> (\<exists>e. outcomeAt fn s j = Rejected e \<and> transient e)"
    and "attempt + k < maxR \<longrightarrow> outcomeAt fn s k = Resolved r"
  shows "rrCalls (retryLoop maxR ctxName rnd fn attempt lastError delays s) = min maxR (attempt + k + 1)
       \<and> rrDelays (retryLoop maxR ctxName rnd fn attempt lastError delays s) =
           delays @ map (backoff rnd) [attempt ..< min (maxR - 1) (attempt + k)]
       \<and> (attempt + k < maxR \<longrightarrow>
            rrResult (retryLoop maxR ctxName rnd fn attempt lastError delays s) = ok r)
       \<and> (maxR \<le> attempt + k \<longrightarrow>
            (\<exists>e. rrResult (retryLoop maxR ctxName rnd fn attempt lastError delays s) = err e
                 \<and> code e = ''AI_REQUEST_FAILED''))"
  using assms
proof (induction k arbitrary: attempt lastError delays s)
  case 0
  show ?case
  proof (cases "attempt < maxR")
    case True
    with 0 have "fst (fn s) = Resolved r" by (simp add: outcomeAt_0)
    with True show ?thesis by (simp add: retryLoop_resolved)
  next
    case False
    with 0 have "attempt = maxR" by simp
    then show ?thesis using code_exhausted by (auto simp: retryLoop_exhausted)
  qed
next
  case (Suc k)
  show ?case
  proof (cases "attempt < maxR")
    case False
    with Suc.prems have "attempt = maxR" by simp
    then show ?thesis using code_exhausted by (auto simp: retryLoop_exhausted)
  next
    case True
    with Suc.prems(2)[rule_format, of 0] obtain e where e: "fst (fn s) = Rejected e" "transient e"
      by (auto simp: outcomeAt_0)
    let ?delays = "if attempt < maxR - 1 then delays @ [backoff rnd attempt] else delays"
    have step: "retryLoop maxR ctxName rnd fn attempt lastError delays s =
        retryLoop maxR ctxName rnd fn (attempt + 1) (Some e) ?delays (snd (fn s))"
      using True e by (intro retryLoop_transient)
    have 1: "attempt + 1 \<le> maxR" using True by simp
    have 2: "\<forall>j. j < k \<and> attempt + 1 + j < maxR \<longrightarrow>
               (\<exists>e. outcomeAt fn (snd (fn s)) j = Rejected e \<and> transient e)"
    proof (intro allI impI)
      fix j assume "j < k \<and> attempt + 1 + j < maxR"
      then have "Suc j < Suc k \<and> attempt + Suc j < maxR" by simp
      with Suc.prems(2) show "\<exists>e. outcomeAt fn (snd (fn s)) j = Rejected e \<and> transient e"
        unfolding outcomeAt_Suc[symmetric] by blast
    qed
    have 3: "attempt + 1 + k < maxR \<longrightarrow> outcomeAt fn (snd (fn s)) k = Resolved r"
      using Suc.prems(3) by (simp add: outcomeAt_Suc)
    note IH = Suc.IH[OF 1 2 3, of "Some e" ?delays]
    have range: "?delays @ map (backoff rnd) [attempt + 1 ..< min (maxR - 1) (attempt + 1 + k)]
        = delays @ map (backoff rnd) [attempt ..< min (maxR - 1) (attempt + Suc k)]"
    proof (cases "attempt < maxR - 1")
      case True
      then have "[attempt ..< min (maxR - 1) (attempt + Suc k)]
          = attempt # [attempt + 1 ..< min (maxR - 1) (attempt + 1 + k)]"
        by (simp add: upt_conv_Cons)
      with True show ?thesis by simp
    next
      case False
      with True have "maxR - 1 = attempt" by simp
      then show ?thesis using False by simp
    qed
    show ?thesis
      unfolding step using IH range by simp
  qed
qed


lemma callWithRetry_initialized:
  "initialized svc \<Longrightarrow>
   fst (callWithRetry svc tnow late rnd fn ctxName s) =
     retryLoop (maxRetries (config svc)) ctxName rnd fn 0 None [] s"
  by (simp add: callWithRetry_def Let_def split: prod.splits)

lemma exampleService_ready: "initialized exampleService \<and> maxRetries (config exampleService) = 3"
  by (simp add: exampleService_def exampleConfig_def newGLMService_def initialize_def js_def Let_def)

lemma exampleService_callAPI: "callAPI exampleService (answering c) n = (Resolved c, Suc n)"
  by (simp add: exampleService_def exampleConfig_def newGLMService_def initialize_def js_def Let_def
      callAPI_def trim_def isWhiteSpace_def generateToken_def answering_def)

lemma exampleService_answer: "rrResult (fst (askModel exampleService exampleEnv (answering c) name n)) = Inr c"
  by (simp add: askModel_def callWithRetry_initialized exampleService_ready exampleService_callAPI retryLoop_resolved ok_def)

text \<open>
  The loop on failures that it retries. Let the first \<open>k\<close> calls of the transport fail
  with errors that \<^verbatim>\<open>isRetryableError\<close> accepts and whose messages hold none of \<^verbatim>\<open>401\<close>,
  \<^verbatim>\<open>403\<close>, \<^verbatim>\<open>400\<close>, and call \<open>k\<close> succeed if it is made. Then the transport is called
  \<open>min maxRetries (k + 1)\<close> times; the delay after attempt \<open>j\<close>, set only when another
  attempt follows, is \<^verbatim>\<open>1000 * Math.pow(2, j) + Math.random() * 500\<close>, whose exact value
  lies in \<open>[1000 * 2 ^ j, 1000 * 2 ^ j + 500)\<close> for random values in \<open>[0, 1)\<close>; the
  result is \<^verbatim>\<open>Ok\<close> when an attempt succeeded and \<^verbatim>\<open>AI_REQUEST_FAILED\<close> otherwise.
\<close>

lemma transient_failures_retried:
  assumes init: "initialized svc"
    and fails: "\<forall>j. j < k \<and> j < maxRetries (config svc) \<longrightarrow>
                  (\<exists>e. outcomeAt fn s j = Rejected e \<and> transient e)"
    and succ: "k < maxRetries (config svc) \<longrightarrow> outcomeAt fn s k = Resolved r"
    and rnd: "\<forall>j. 0 \<le> rnd j \<and> rnd j < 1"
  shows "rrCalls (fst (callWithRetry svc tnow late rnd fn ctxName s))
           = min (maxRetries (config svc)) (k + 1)
       \<and> rrDelays (fst (callWithRetry svc tnow late rnd fn ctxName s))
           = map (backoff rnd)
               [0 ..< rrCalls (fst (callWithRetry svc tnow late rnd fn ctxName s)) - 1]
       \<and> (\<forall>j < length (rrDelays (fst (callWithRetry svc tnow late rnd fn ctxName s))).
             1000 * 2 ^ j \<le> exact (rrDelays (fst (callWithRetry svc tnow late rnd fn ctxName s)) ! j)
           \<and> exact (rrDelays (fst (callWithRetry svc tnow late rnd fn ctxName s)) ! j)
               < 1000 * 2 ^ j + 500)
       \<and> (k < maxRetries (config svc) \<longrightarrow>
             rrResult (fst (callWithRetry svc tnow late rnd fn ctxName s)) = ok r)
       \<and> (maxRetries (config svc) \<le> k \<longrightarrow>
             (\<exists>e. rrResult (fst (callWithRetry svc tnow late rnd fn ctxName s)) = err e
                  \<and> code e = ''AI_REQUEST_FAILED''))"
proof -
  let ?maxR = "maxRetries (config svc)"
  let ?run = "fst (callWithRetry svc tnow late rnd fn ctxName s)"
  have run: "?run = retryLoop ?maxR ctxName rnd fn 0 None [] s"
    by (rule callWithRetry_initialized[OF init])
  have "0 \<le> ?maxR" by simp
  from retryLoop_run[OF this, of k fn s r ctxName rnd None "[]"] fails succ
  have calls: "rrCalls ?run = min ?maxR (k + 1)"
    and delays0: "rrDelays ?run = map (backoff rnd) [0 ..< min (?maxR - 1) k]"
    and okr: "k < ?maxR \<longrightarrow> rrResult ?run = ok r"
    and bad: "?maxR \<le> k \<longrightarrow> (\<exists>e. rrResult ?run = err e \<and> code e = ''AI_REQUEST_FAILED'')"
    unfolding run by simp_all
  have "min (?maxR - 1) k = rrCalls ?run - 1" unfolding calls by (cases ?maxR) auto
  with delays0 have delays: "rrDelays ?run = map (backoff rnd) [0 ..< rrCalls ?run - 1]"
    by simp
  have bounds: "1000 * 2 ^ j \<le> exact (rrDelays ?run ! j)
      \<and> exact (rrDelays ?run ! j) < 1000 * 2 ^ j + 500"
    if "j < length (rrDelays ?run)" for j
  proof -
    from that have j: "j < rrCalls ?run - 1" by (simp add: delays)
    then have "rrDelays ?run ! j = backoff rnd j"
      by (subst delays) simp
    then have "exact (rrDelays ?run ! j) = 1000 * 2 ^ j + rnd j * 500"
      by (simp add: backoff_def)
    moreover from rnd have "0 \<le> rnd j" "rnd j < 1" by auto
    ultimately show ?thesis by simp
  qed
  from calls delays bounds okr bad show ?thesis by blast
qed

lemma reset_transient: "transient (JSError (js ''read ECONNRESET'') (Some (js ''ECONNRESET'')))"
  by (simp add: transient_def isRetryableError_def retryableCodes_def) (simp add: js_def)

lemma flaky_outcomes:
  "outcomeAt (flaky c) 0 0 = Rejected (JSError (js ''read ECONNRESET'') (Some (js ''ECONNRESET'')))"
  "outcomeAt (flaky c) 0 1 = Rejected (JSError (js ''read ECONNRESET'') (Some (js ''ECONNRESET'')))"
  "outcomeAt (flaky c) 0 2 = Resolved c"
  by (simp_all add: outcomeAt_def flaky_def numeral_2_eq_2)

text \<open>
  The scenario of the specification: a transport that fails twice with \<^verbatim>\<open>ECONNRESET\<close> and
  then succeeds yields \<^verbatim>\<open>Ok\<close> after three calls and two delays.
\<close>

lemma flaky_transport_three_calls:
  \<open>rrCalls (fst (callWithRetry exampleService 0 0 (\<lambda>k. 1 / 2) (flaky (js ''{}''))
         ''recognizeMedications'' 0)) = 3
   \<and> rrResult (fst (callWithRetry exampleService 0 0 (\<lambda>k. 1 / 2) (flaky (js ''{}''))
         ''recognizeMedications'' 0)) = ok (js ''{}'')
   \<and> rrDelays (fst (callWithRetry exampleService 0 0 (\<lambda>k. 1 / 2) (flaky (js ''{}''))
         ''recognizeMedications'' 0)) = [backoff (\<lambda>k. 1 / 2) 0, backoff (\<lambda>k. 1 / 2) 1]
   \<and> map exact [backoff (\<lambda>k. 1 / 2) 0, backoff (\<lambda>k. 1 / 2) 1] = [1250, 2250]\<close>
proof -
  have init: "initialized exampleService" and three: "maxRetries (config exampleService) = 3"
    using exampleService_ready by simp_all
  have fails: "\<forall>j. j < 2 \<and> j < maxRetries (config exampleService) \<longrightarrow>
      (\<exists>e. outcomeAt (flaky (js ''{}'')) 0 j = Rejected e \<and> transient e)"
  proof (intro allI impI)
    fix j :: nat assume "j < 2 \<and> j < maxRetries (config exampleService)"
    then have "j = 0 \<or> j = 1" by auto
    then show "\<exists>e. outcomeAt (flaky (js ''{}'')) 0 j = Rejected e \<and> transient e"
      using flaky_outcomes reset_transient by auto
  qed
  have succ: "2 < maxRetries (config exampleService) \<longrightarrow>
      outcomeAt (flaky (js ''{}'')) 0 2 = Resolved (js ''{}'')"
    by (simp add: flaky_outcomes)
  have rnd: "\<forall>j::nat. (0::rat) \<le> 1 / 2 \<and> (1::rat) / 2 < 1" by simp
  from transient_failures_retried[OF init fails succ rnd, of 0 0 "''recognizeMedications''"]
  show ?thesis
    using three by (simp add: upt_conv_Cons backoff_def)
qed

lemma showNat_40000: "showNat 40000 = js ''40000''"
  by (simp add: showNat.simps js_def)

lemma timeoutError_40000: "timeoutError 40000 = JSError (js ''Request timeout after 40000ms'') None"
  by (simp add: timeoutError_def showNat_40000 js_def)

lemma timeout_message_codes:
  "\<not> includes_str (js ''Request timeout after 40000ms'') (js ''401'')"
  "\<not> includes_str (js ''Request timeout after 40000ms'') (js ''403'')"
  "includes_str (js ''Request timeout after 40000ms'') (js ''400'')"
  by (simp_all add: js_def)

lemma timeout_retryable: "isRetryableError (JSError (js ''Request timeout after 40000ms'') None)"
  by (simp add: isRetryableError_def includes_ci_def lowerASCII_def js_def)

lemma slowService_ready:
  "initialized slowService" "maxRetries (config slowService) = 3"
  "timeout (config slowService) = 40000" "apiKey (config slowService) = js ''id.secret''"
  by (simp_all add: slowService_def exampleConfig_def newGLMService_def initialize_def Let_def)

lemma slowService_callAPI:
  "callAPI slowService (silent 40000) n
     = (Rejected (JSError (js ''Request timeout after 40000ms'') None), Suc n)"
proof -
  have "silent 40000 token n = (Rejected (JSError (js ''Request timeout after 40000ms'') None), Suc n)"
    for token
    by (simp add: silent_def timeoutError_40000)
  then show ?thesis
    by (simp add: callAPI_def slowService_ready Let_def generateToken_def)
       (simp add: js_def trim_def isWhiteSpace_def)
qed

text \<open>
  Claim C4 fails on the code. The service is configured with a timeout of 40000 ms and
  the server does not answer, so \<^verbatim>\<open>callAPI\<close> rejects with
  \<^verbatim>\<open>Request timeout after 40000ms\<close>. \<^verbatim>\<open>isRetryableError\<close> accepts that error (its message
  matches \<^verbatim>\<open>/timeout/i\<close>), but the test \<^verbatim>\<open>error.message.includes('400')\<close>, meant for the
  status of a response, comes first and finds \<^verbatim>\<open>400\<close> in \<^verbatim>\<open>40000ms\<close>: \<^verbatim>\<open>callWithRetry\<close>
  returns \<^verbatim>\<open>AI_BAD_REQUEST\<close> after a single call, although three attempts are configured.
\<close>

theorem timeout_mistaken_for_bad_request:
  \<open>maxRetries (config slowService) = 3
   \<and> timeout (config slowService) = 40000
   \<and> isRetryableError (timeoutError 40000)
   \<and> fst (callWithRetry slowService 0 0 (\<lambda>k. 0) (callAPI slowService (silent 40000))
          ''recognizeMedications'' 0) =
       \<lparr>rrResult = err (createError ''AI_BAD_REQUEST'' DOMAIN CRITICAL msgBadRequest
            (js ''Request timeout after 40000ms'')
            [(''attempt'', CtxNum 0), (''context'', CtxStr (js ''recognizeMedications''))]),
        rrCalls = 1, rrDelays = [], rrTransport = 1\<rparr>\<close>
  by (simp add: slowService_ready timeoutError_40000 timeout_retryable
      callWithRetry_initialized retryLoop.simps[of 3] slowService_callAPI timeout_message_codes)

text \<open>
  Claim C5. When the first call of the transport fails with the error of an HTTP 401 or
  403 response, \<^verbatim>\<open>callWithRetry\<close> calls the transport once, sets no delay and returns the
  error \<^verbatim>\<open>AI_AUTH_FAILED\<close> with severity \<^verbatim>\<open>CRITICAL\<close>.
\<close>

theorem auth_failure_not_retried:
  assumes "initialized svc" and "0 < maxRetries (config svc)"
    and "statusCode = 401 \<or> statusCode = 403"
    and "fn s = (Rejected (statusError statusCode body), s')"
  shows "fst (callWithRetry svc tnow late rnd fn ctxName s) =
           \<lparr>rrResult = err (createError ''AI_AUTH_FAILED'' NETWORK CRITICAL msgAuthFailed
                (message (statusError statusCode body))
                [(''attempt'', CtxNum 0), (''context'', CtxStr (js ctxName))]),
            rrCalls = 1, rrDelays = [], rrTransport = s'\<rparr>"
proof -
  have "includes_str (message (statusError statusCode body)) (js ''401'')
      \<or> includes_str (message (statusError statusCode body)) (js ''403'')"
    using assms(3) statusError_401 statusError_403 by blast
  then have "retryLoop (maxRetries (config svc)) ctxName rnd fn 0 None [] s =
           \<lparr>rrResult = err (createError ''AI_AUTH_FAILED'' NETWORK CRITICAL msgAuthFailed
                (message (statusError statusCode body))
                [(''attempt'', CtxNum 0), (''context'', CtxStr (js ctxName))]),
            rrCalls = 0 + 1, rrDelays = [], rrTransport = s'\<rparr>"
    using assms(2) assms(4) by (intro retryLoop_auth)
  then show ?thesis using assms(1)
    by (simp add: callWithRetry_def Let_def split: prod.splits)
qed

theorem auth_failure_not_retried_witness:
  "initialized exampleService \<and> 0 < maxRetries (config exampleService)
   \<and> denied 0 = (Rejected (statusError 401 (js ''Unauthorized'')), 1)
   \<and> fst (callWithRetry exampleService 0 0 (\<lambda>k. 0) denied ''recognizeMedications'' 0) =
       \<lparr>rrResult = err (createError ''AI_AUTH_FAILED'' NETWORK CRITICAL msgAuthFailed
            (message (statusError 401 (js ''Unauthorized'')))
            [(''attempt'', CtxNum 0), (''context'', CtxStr (js ''recognizeMedications''))]),
        rrCalls = 1, rrDelays = [], rrTransport = 1\<rparr>"
  using auth_failure_not_retried [of exampleService 401 denied 0 "js ''Unauthorized''" 1 0 0
      "\<lambda>k. 0" "''recognizeMedications''"]
  by (simp add: exampleService_ready denied_def)

section \<open>Properties of the extraction operations\<close>

lemma extractWith_outcome:
  "opOutcome (extractWith name tr svc env https s) =
     (case rrResult (fst (askModel svc env https name s)) of
        Inl e \<Rightarrow> Returned (err e)
      | Inr response \<Rightarrow>
          (case parseJSONResponse (envParseError env) response of
             Inl e \<Rightarrow> Returned (err e)
           | Inr data \<Rightarrow>
               (case tr data of None \<Rightarrow> ThrewTypeError | Some v \<Rightarrow> Returned (ok v))))"
  by (simp add: extractWith_def Let_def split: prod.splits)

lemma extractWith_run:
  "opCalls (extractWith name tr svc env https s) = rrCalls (fst (askModel svc env https name s))"
  "opDelays (extractWith name tr svc env https s) = rrDelays (fst (askModel svc env https name s))"
  "opTransport (extractWith name tr svc env https s) = rrTransport (fst (askModel svc env https name s))"
  by (simp_all add: extractWith_def Let_def split: prod.splits)












lemma newDate_iff: "(newDate v \<noteq> None) = dateReadable v"
  by (cases v) auto











lemma env_parse_error: "envParseError exampleEnv text = js ''Unexpected token''"
  by (simp add: exampleEnv_def)







text \<open>
  So does \<^verbatim>\<open>new Date(item.startDate)\<close> on the answer
  \<^verbatim>\<open>{"medications": [{"startDate": {"toString": 1}}]}\<close>, and reading \<^verbatim>\<open>item.number\<close> on the
  answer \<^verbatim>\<open>{"inclusionCriteria": [null]}\<close>.
\<close>

lemma parse_unreadable_date:
  \<open>parseJSONResponse pe (js ''{"medications": [{"startDate": {"toString": 1}}]}'')
    = Inr (JObj [(js ''medications'',
             JArr [JObj [(js ''startDate'', JObj [(js ''toString'', JNum 1 0)])]])])\<close>
  by (simp add: parseJSONResponse_def tryParse_def ok_def extract_eval json_eval)

lemma unreadable_date_escapes: \<open>opOutcome (recognizeMedications exampleService exampleEnv
     (answering (js ''{"medications": [{"startDate": {"toString": 1}}]}'')) 0) = ThrewTypeError\<close>
  by (simp add: recognizeMedications_def extractWith_outcome exampleService_answer
      parse_unreadable_date medicationsOf_def toMedication_def)

lemma parse_null_criterion:
  \<open>parseJSONResponse pe (js ''{"inclusionCriteria": [null]}'')
    = Inr (JObj [(js ''inclusionCriteria'', JArr [JNull])])\<close>
  by (simp add: parseJSONResponse_def tryParse_def ok_def extract_eval json_eval)

lemma null_item_escapes: \<open>opOutcome (extractCriteria exampleService exampleEnv
     (answering (js ''{"inclusionCriteria": [null]}'')) 0) = ThrewTypeError\<close>
  by (simp add: extractCriteria_def extractWith_outcome exampleService_answer
      parse_null_criterion criteriaOf_def toCriterion_def)

lemma key_messages_plain:
  "\<not> includes_str msgKeyUnset (js ''401'')" "\<not> includes_str msgKeyUnset (js ''403'')"
  "\<not> includes_str msgKeyUnset (js ''400'')"
  "\<not> includes_str msgKeyFormat (js ''401'')" "\<not> includes_str msgKeyFormat (js ''403'')"
  "\<not> includes_str msgKeyFormat (js ''400'')"
  "\<not> includes_str msgTokenFormat (js ''401'')" "\<not> includes_str msgTokenFormat (js ''403'')"
  "\<not> includes_str msgTokenFormat (js ''400'')"
  by (simp_all add: msg_eval)

lemma key_messages_final:
  "\<not> isRetryableError (JSError msgKeyUnset None)"
  "\<not> isRetryableError (JSError msgKeyFormat None)"
  "\<not> isRetryableError (JSError msgTokenFormat None)"
  by (simp_all add: msg_eval isRetryableError_def includes_ci_def lowerASCII_def isDigit_def)

lemma key_messages_not_retried:
  assumes "m \<in> {msgKeyUnset, msgKeyFormat, msgTokenFormat}"
  shows "\<not> includes_str m (js ''401'')" "\<not> includes_str m (js ''403'')"
    "\<not> includes_str m (js ''400'')" "\<not> isRetryableError (JSError m None)"
  using assms key_messages_plain key_messages_final by blast+

lemma keyError_cases: "keyError key \<in> {msgKeyUnset, msgKeyFormat, msgTokenFormat}"
  by (simp add: keyError_def)

lemma callAPI_malformed:
  assumes "length (split_str 46 (apiKey (config svc))) \<noteq> 2"
  shows "callAPI svc https s = (Rejected (JSError (keyError (apiKey (config svc))) None), s)"
proof -
  let ?key = "apiKey (config svc)"
  have "generateToken ?key = Inl (JSError msgTokenFormat None)"
    using assms by (auto simp: generateToken_def split: list.splits)
  moreover have "?key = [] \<longrightarrow> length (trim ?key) = 0" by (simp add: trim_def)
  ultimately show ?thesis by (auto simp: callAPI_def keyError_def Let_def)
qed

lemma extractWith_malformed:
  assumes init: "initialized svc" and pos: "0 < maxRetries (config svc)"
    and call: "callAPI svc https s = (Rejected (JSError m None), s)"
    and m: "m \<in> {msgKeyUnset, msgKeyFormat, msgTokenFormat}"
  shows "failsBeforeRequest name m s (extractWith name tr svc env https s)"
proof -
  note nr = key_messages_not_retried[OF m]
  have "retryLoop (maxRetries (config svc)) name (envRandom env) (callAPI svc https) 0 None [] s =
          \<lparr>rrResult = err (createError ''AI_REQUEST_FAILED'' NETWORK CRITICAL msgRequestFailed
                (message (JSError m None))
                [(''attempts'', CtxNum (0 + 1)), (''context'', CtxStr (js name))]),
            rrCalls = 0 + 1, rrDelays = [], rrTransport = s\<rparr>"
    using pos call nr by (intro retryLoop_not_retryable) simp_all
  then have "fst (askModel svc env https name s) =
          \<lparr>rrResult = err (createError ''AI_REQUEST_FAILED'' NETWORK CRITICAL msgRequestFailed m
                [(''attempts'', CtxNum 1), (''context'', CtxStr (js name))]),
            rrCalls = 1, rrDelays = [], rrTransport = s\<rparr>"
    by (simp add: askModel_def callWithRetry_initialized[OF init])
  then show ?thesis
    by (simp add: failsBeforeRequest_def extractWith_outcome extractWith_run err_def)
qed

text \<open>
  What the code does with a malformed key. On an initialized service whose key does
  not split into exactly two parts at the dot, every extraction operation fails at the
  first attempt, before any request is sent and without a retry; the error it returns
  carries the key error of \<^verbatim>\<open>callAPI\<close> or \<^verbatim>\<open>generateToken\<close> as its technical message.
\<close>

lemma malformed_key_fails_before_request:
  assumes "initialized svc" and "0 < maxRetries (config svc)"
    and "length (split_str 46 (apiKey (config svc))) \<noteq> 2"
  shows "failsBeforeRequest ''extractCriteria'' (keyError (apiKey (config svc))) s
              (extractCriteria svc env https s)
         \<and> failsBeforeRequest ''extractVisitSchedule'' (keyError (apiKey (config svc))) s
              (extractVisitSchedule svc env https s)
         \<and> failsBeforeRequest ''recognizeMedications'' (keyError (apiKey (config svc))) s
              (recognizeMedications svc env https s)
         \<and> failsBeforeRequest ''extractSubjectNumber'' (keyError (apiKey (config svc))) s
              (extractSubjectNumber svc env https s)
         \<and> failsBeforeRequest ''extractSubjectVisitDates'' (keyError (apiKey (config svc))) s
              (extractSubjectVisitDates svc env https s)
         \<and> failsBeforeRequest ''extractSubjectVisitItems'' (keyError (apiKey (config svc))) s
              (extractSubjectVisitItems svc env https s)"
proof -
  let ?m = "keyError (apiKey (config svc))"
  note call = callAPI_malformed[OF assms(3), of https s]
  note m = keyError_cases[of "apiKey (config svc)"]
  have a: "failsBeforeRequest ''extractCriteria'' ?m s (extractCriteria svc env https s)"
    unfolding extractCriteria_def
    using assms(1) assms(2) call m by (rule extractWith_malformed)
  have b: "failsBeforeRequest ''extractVisitSchedule'' ?m s (extractVisitSchedule svc env https s)"
    unfolding extractVisitSchedule_def
    using assms(1) assms(2) call m by (rule extractWith_malformed)
  have c: "failsBeforeRequest ''recognizeMedications'' ?m s (recognizeMedications svc env https s)"
    unfolding recognizeMedications_def
    using assms(1) assms(2) call m by (rule extractWith_malformed)
  have d: "failsBeforeRequest ''extractSubjectNumber'' ?m s (extractSubjectNumber svc env https s)"
    unfolding extractSubjectNumber_def
    using assms(1) assms(2) call m by (rule extractWith_malformed)
  have e: "failsBeforeRequest ''extractSubjectVisitDates'' ?m s (extractSubjectVisitDates svc env https s)"
    unfolding extractSubjectVisitDates_def
    using assms(1) assms(2) call m by (rule extractWith_malformed)
  have f: "failsBeforeRequest ''extractSubjectVisitItems'' ?m s (extractSubjectVisitItems svc env https s)"
    unfolding extractSubjectVisitItems_def
    using assms(1) assms(2) call m by (rule extractWith_malformed)
  from a b c d e f show ?thesis by simp
qed

lemma dotless: "initialized dotlessService" "maxRetries (config dotlessService) = 3"
  "apiKey (config dotlessService) = js ''abc''"
  by (simp_all add: dotlessService_def exampleConfig_def newGLMService_def initialize_def Let_def)

lemma dotless_call: "callAPI dotlessService https s = (Rejected (JSError msgKeyFormat None), s)"
  by (simp add: callAPI_def dotless Let_def) (simp add: js_def trim_def isWhiteSpace_def)

text \<open>
  Claim C7 fails on the code. With the key \<^verbatim>\<open>abc\<close>, which has no dot,
  \<^verbatim>\<open>recognizeMedications\<close> does fail at the first attempt and before any request, but the
  error it returns does not attribute the failure to the credential. \<^verbatim>\<open>callWithRetry\<close> has
  no branch for the error of \<^verbatim>\<open>callAPI\<close>'s own check of the key format, and returns it as
  \<^verbatim>\<open>AI_REQUEST_FAILED\<close> of category \<^verbatim>\<open>NETWORK\<close> with the user message that asks to check the
  network connection; the key error is left in the technical message. The sibling paths
  report a credential problem as such: \<^verbatim>\<open>initialize\<close> returns \<^verbatim>\<open>AI_NO_API_KEY\<close> for an empty
  key, and a response with status 401 or 403 is returned as \<^verbatim>\<open>AI_AUTH_FAILED\<close>.
\<close>

theorem malformed_key_reported_as_network_failure:
  \<open>opOutcome (recognizeMedications dotlessService exampleEnv (answering (js ''{}'')) 0) =
     Returned (err (createError ''AI_REQUEST_FAILED'' NETWORK CRITICAL msgRequestFailed msgKeyFormat
                      [(''attempts'', CtxNum 1), (''context'', CtxStr (js ''recognizeMedications''))]))
   \<and> opCalls (recognizeMedications dotlessService exampleEnv (answering (js ''{}'')) 0) = 1
   \<and> opDelays (recognizeMedications dotlessService exampleEnv (answering (js ''{}'')) 0) = []
   \<and> opTransport (recognizeMedications dotlessService exampleEnv (answering (js ''{}'')) 0) = 0\<close>
proof -
  have "failsBeforeRequest ''recognizeMedications'' msgKeyFormat 0
     (extractWith ''recognizeMedications'' (medicationsOf (envIdTime exampleEnv)) dotlessService exampleEnv (answering (js ''{}'')) 0)"
    by (rule extractWith_malformed) (simp_all add: dotless dotless_call)
  then show ?thesis by (simp add: failsBeforeRequest_def recognizeMedications_def)
qed

text \<open>
  Claim C8, as amended. When the text \<^verbatim>\<open>parseJSONResponse\<close> extracts from the answer
  parses as a JSON value other than \<^verbatim>\<open>null\<close>, and that value has no \<^verbatim>\<open>medications\<close>
  (\<^verbatim>\<open>subjectNumber\<close>, \<^verbatim>\<open>visits\<close>, \<^verbatim>\<open>items\<close>) property, the operation returns \<^verbatim>\<open>Ok\<close> with the
  empty list (the empty string for \<^verbatim>\<open>extractSubjectNumber\<close>).
\<close>

theorem missing_key_defaults:
  assumes "tryParse (extractJSONText response) = Some data"
  shows "(rrResult (fst (askModel svc env https ''recognizeMedications'' s)) = ok response
            \<and> getProp data ''medications'' = Some None
          \<longrightarrow> opOutcome (recognizeMedications svc env https s) = Returned (ok []))
       \<and> (rrResult (fst (askModel svc env https ''extractSubjectNumber'' s)) = ok response
            \<and> getProp data ''subjectNumber'' = Some None
          \<longrightarrow> opOutcome (extractSubjectNumber svc env https s) = Returned (ok (JStr [])))
       \<and> (rrResult (fst (askModel svc env https ''extractSubjectVisitDates'' s)) = ok response
            \<and> getProp data ''visits'' = Some None
          \<longrightarrow> opOutcome (extractSubjectVisitDates svc env https s) = Returned (ok (JArr [])))
       \<and> (rrResult (fst (askModel svc env https ''extractSubjectVisitItems'' s)) = ok response
            \<and> getProp data ''items'' = Some None
          \<longrightarrow> opOutcome (extractSubjectVisitItems svc env https s) = Returned (ok (JArr [])))"
  using parse_direct[OF assms, of "envParseError env"]
  by (simp add: recognizeMedications_def extractSubjectNumber_def extractSubjectVisitDates_def
      extractSubjectVisitItems_def extractWith_outcome ok_def medicationsOf_def
      subjectNumberOf_def visitsOf_def itemsOf_def)

lemma parse_empty_object: \<open>tryParse (extractJSONText (js ''{"other": 1}''))
     = Some (JObj [(js ''other'', JNum 1 0)])\<close>
  by (simp add: tryParse_def extract_eval json_eval)

theorem missing_key_defaults_witness:
  \<open>tryParse (extractJSONText (js ''{"other": 1}'')) = Some (JObj [(js ''other'', JNum 1 0)])
   \<and> rrResult (fst (askModel exampleService exampleEnv (answering (js ''{"other": 1}''))
         ''recognizeMedications'' 0)) = ok (js ''{"other": 1}'')
   \<and> getProp (JObj [(js ''other'', JNum 1 0)]) ''medications'' = Some None
   \<and> opOutcome (recognizeMedications exampleService exampleEnv
         (answering (js ''{"other": 1}'')) 0) = Returned (ok [])
   \<and> opOutcome (extractSubjectNumber exampleService exampleEnv
         (answering (js ''{"other": 1}'')) 0) = Returned (ok (JStr []))
   \<and> opOutcome (extractSubjectVisitDates exampleService exampleEnv
         (answering (js ''{"other": 1}'')) 0) = Returned (ok (JArr []))
   \<and> opOutcome (extractSubjectVisitItems exampleService exampleEnv
         (answering (js ''{"other": 1}'')) 0) = Returned (ok (JArr []))\<close>
  using missing_key_defaults [OF parse_empty_object, of exampleService exampleEnv
      \<open>answering (js ''{"other": 1}'')\<close> 0]
  by (simp add: exampleService_answer ok_def parse_empty_object)

lemma extract_null: \<open>extractJSONText (js ''null'') = js ''null''\<close>
  by (simp add: extract_eval)

lemma parse_null: \<open>parseJSONResponse pe (js ''null'') =
   Inl (createError ''AI_PARSE_FAILED'' DOMAIN CRITICAL msgParseFailed (pe (js ''null''))
          [(''response'', CtxStr (js ''null''))])\<close>
proof -
  have 1: "JSON_parse (js ''null'') = Some JNull" by (simp add: json_eval)
  have 2: "fixIncompleteJSON (js ''null'') = js ''null''" by (simp add: fix_eval js_def)
  show ?thesis
    unfolding parseJSONResponse_def extract_null Let_def tryParse_def 1 2
    by (simp add: err_def) (simp add: js_def)
qed

lemma parse_object_list: \<open>JSON_parse (js ''[{"a":1},{"b":2}]'')
     = Some (JArr [JObj [(js ''a'', JNum 1 0)], JObj [(js ''b'', JNum 2 0)]])\<close>
  by (simp add: json_eval)

lemma parseJSONResponse_object_list: \<open>parseJSONResponse pe (js ''[{"a":1},{"b":2}]'') =
   Inl (createError ''AI_PARSE_FAILED'' DOMAIN CRITICAL msgParseFailed
          (pe (js ''{"a":1},{"b":2}'')) [(''response'', CtxStr (js ''[{"a":1},{"b":2}]''))])\<close>
proof -
  have 0: "extractJSONText (js ''[{\"a\":1},{\"b\":2}]'') = js ''{\"a\":1},{\"b\":2}''"
    by (simp add: extract_eval)
  have 1: "JSON_parse (js ''{\"a\":1},{\"b\":2}'') = None" by (simp add: json_eval)
  have 2: "fixIncompleteJSON (js ''{\"a\":1},{\"b\":2}'') = js ''{\"a\":1},{\"b\":2}''"
    by (simp add: fix_eval js_def)
  show ?thesis
    unfolding parseJSONResponse_def 0 Let_def tryParse_def 1 2
    by (simp add: err_def) (simp add: js_def)
qed

text \<open>
  The claim as stated fails: the answers \<^verbatim>\<open>null\<close> and \<^verbatim>\<open>[{"a":1},{"b":2}]\<close> are valid
  JSON without any of the keys, and the operations return \<^verbatim>\<open>AI_PARSE_FAILED\<close> on them
  (\<^verbatim>\<open>Object.keys(null)\<close> throws inside the \<^verbatim>\<open>try\<close>; of the array only the span from the first
  \<^verbatim>\<open>{\<close> to the last \<^verbatim>\<open>}\<close> is parsed).
\<close>

theorem null_answer_is_parse_failure:
  \<open>JSON_parse (js ''null'') = Some JNull
   \<and> opOutcome (extractSubjectNumber exampleService exampleEnv (answering (js ''null'')) 0) =
       Returned (err (createError ''AI_PARSE_FAILED'' DOMAIN CRITICAL msgParseFailed
          (js ''Unexpected token'') [(''response'', CtxStr (js ''null''))]))
   \<and> JSON_parse (js ''[{"a":1},{"b":2}]'')
       = Some (JArr [JObj [(js ''a'', JNum 1 0)], JObj [(js ''b'', JNum 2 0)]])
   \<and> opOutcome (recognizeMedications exampleService exampleEnv
         (answering (js ''[{"a":1},{"b":2}]'')) 0) =
       Returned (err (createError ''AI_PARSE_FAILED'' DOMAIN CRITICAL msgParseFailed
          (js ''Unexpected token'') [(''response'', CtxStr (js ''[{"a":1},{"b":2}]''))]))\<close>
proof -
  have 1: "JSON_parse (js ''null'') = Some JNull" by (simp add: json_eval)
  show ?thesis
    by (simp add: 1 parse_object_list extractSubjectNumber_def recognizeMedications_def
        extractWith_outcome exampleService_answer parse_null parseJSONResponse_object_list
        err_def env_parse_error)
qed

section \<open>Properties of the singleton and of initialization\<close>

lemma createGLMService_existing:
  "glmServiceInstance m = Some r \<Longrightarrow> createGLMService c m = (r, m)"
  by (simp add: createGLMService_def)

lemma createAll_existing:
  "glmServiceInstance m = Some r \<Longrightarrow> createAll cs m = (replicate (length cs) r, m)"
  by (induction cs) (simp_all add: createGLMService_existing)

text \<open>
  Claim C9. Once \<^verbatim>\<open>createGLMService(c1)\<close> has created the instance, every later
  \<^verbatim>\<open>createGLMService(c2)\<close> returns the same object and changes nothing: the object still
  is the service built from \<open>c1\<close>, and whatever state the module is in while the variable
  holds that object, the call leaves it as it is.
\<close>

theorem createGLMService_first_call_wins:
  assumes "glmServiceInstance m0 = None"
    and "createGLMService c1 m0 = (r, m1)"
  shows "getGLMService m1 = Some r
       \<and> heap m1 ! r = newGLMService c1
       \<and> createGLMService c2 m1 = (r, m1)
       \<and> createAll cs m1 = (replicate (length cs) r, m1)
       \<and> (\<forall>m c. glmServiceInstance m = Some r \<longrightarrow> createGLMService c m = (r, m))"
proof -
  from assms have r: "r = length (heap m0)"
    and m1: "m1 = m0\<lparr>heap := heap m0 @ [newGLMService c1], glmServiceInstance := Some r\<rparr>"
    by (auto simp: createGLMService_def Let_def)
  have inst: "glmServiceInstance m1 = Some r" by (simp add: m1)
  have "heap m1 ! r = newGLMService c1" by (simp add: m1 r)
  with inst show ?thesis
    by (simp add: getGLMService_def createGLMService_existing createAll_existing)
qed

theorem createGLMService_first_call_wins_witness:
  "glmServiceInstance \<lparr>heap = [], glmServiceInstance = None\<rparr> = None
   \<and> createGLMService exampleConfig \<lparr>heap = [], glmServiceInstance = None\<rparr> =
        (0, \<lparr>heap = [newGLMService exampleConfig], glmServiceInstance = Some 0\<rparr>)
   \<and> createGLMService (exampleConfig\<lparr>model := js ''glm-3-turbo'', maxRetries := 7\<rparr>)
        \<lparr>heap = [newGLMService exampleConfig], glmServiceInstance = Some 0\<rparr> =
        (0, \<lparr>heap = [newGLMService exampleConfig], glmServiceInstance = Some 0\<rparr>)
   \<and> model (config (newGLMService exampleConfig)) = js ''glm-4''
   \<and> maxRetries (config (newGLMService exampleConfig)) = 3"
  using createGLMService_first_call_wins [of "\<lparr>heap = [], glmServiceInstance = None\<rparr>"
      exampleConfig 0 "\<lparr>heap = [newGLMService exampleConfig], glmServiceInstance = Some 0\<rparr>"
      "exampleConfig\<lparr>model := js ''glm-3-turbo'', maxRetries := 7\<rparr>" "[]"]
  by (simp add: createGLMService_def Let_def) (simp add: newGLMService_def exampleConfig_def Let_def)

text \<open>
  Claim C10. For every non-empty key, \<^verbatim>\<open>initialize\<close> returns \<^verbatim>\<open>Ok\<close> and sets
  \<^verbatim>\<open>initialized\<close>, and \<^verbatim>\<open>updateApiKey\<close> stores the key and does the same; the format of the
  key is checked by \<^verbatim>\<open>callAPI\<close> only: a key without a dot is rejected there with
  \<^verbatim>\<open>msgKeyFormat\<close>, a key with a dot that does not split into two parts with
  \<^verbatim>\<open>msgTokenFormat\<close>, before the request.
\<close>

theorem initialize_accepts_any_nonempty_key:
  assumes "key \<noteq> []"
  shows "(apiKey (config svc) = key \<longrightarrow> initialize svc = (ok (), svc\<lparr>initialized := True\<rparr>))
       \<and> updateApiKey key svc =
           (ok (), svc\<lparr>config := (config svc)\<lparr>apiKey := key\<rparr>, initialized := True\<rparr>)
       \<and> (apiKey (config svc) = key \<and> trim key \<noteq> [] \<and> \<not> includes_str key (js ''.'')
            \<longrightarrow> callAPI svc https s = (Rejected (JSError msgKeyFormat None), s))
       \<and> (apiKey (config svc) = key \<and> trim key \<noteq> [] \<and> includes_str key (js ''.'')
              \<and> length (split_str 46 key) \<noteq> 2
            \<longrightarrow> callAPI svc https s = (Rejected (JSError msgTokenFormat None), s))"
  using assms
  by (auto simp: initialize_def updateApiKey_def callAPI_def generateToken_def Let_def
      split: list.splits)

theorem initialize_accepts_any_nonempty_key_witness:
  "js ''abc'' \<noteq> []
   \<and> apiKey (config (newGLMService (exampleConfig\<lparr>apiKey := js ''abc''\<rparr>))) = js ''abc''
   \<and> trim (js ''abc'') \<noteq> [] \<and> \<not> includes_str (js ''abc'') (js ''.'')
   \<and> initialize (newGLMService (exampleConfig\<lparr>apiKey := js ''abc''\<rparr>)) =
        (ok (), (newGLMService (exampleConfig\<lparr>apiKey := js ''abc''\<rparr>))\<lparr>initialized := True\<rparr>)
   \<and> callAPI (newGLMService (exampleConfig\<lparr>apiKey := js ''abc''\<rparr>)) (answering (js ''{}'')) 0 =
        (Rejected (JSError msgKeyFormat None), 0)
   \<and> includes_str (js ''a.b.c'') (js ''.'') \<and> length (split_str 46 (js ''a.b.c'')) \<noteq> 2"
proof -
  have k: "js ''abc'' \<noteq> []" by simp
  have a: "apiKey (config (newGLMService (exampleConfig\<lparr>apiKey := js ''abc''\<rparr>))) = js ''abc''"
    by (simp add: newGLMService_def Let_def)
  have t: "trim (js ''abc'') \<noteq> [] \<and> \<not> includes_str (js ''abc'') (js ''.'')"
    by (simp add: js_def trim_def isWhiteSpace_def)
  have d: "includes_str (js ''a.b.c'') (js ''.'') \<and> length (split_str 46 (js ''a.b.c'')) \<noteq> 2"
    by (simp add: js_def)
  from initialize_accepts_any_nonempty_key[OF k,
      of "newGLMService (exampleConfig\<lparr>apiKey := js ''abc''\<rparr>)" "answering (js ''{}'')" 0]
  show ?thesis using k a t d by simp
qed

end
